theory Spec2Isabelle
  imports Main "HOL-Library.Multiset"
begin

section \<open>Card and deck model (server.py, classes Card, Player, Room)\<close>

text \<open>
  The dataclasses of server.py as records. The field \<open>id\<close> of each class is renamed
  (\<open>card_id\<close>, \<open>player_id\<close>, \<open>room_id\<close>) because \<open>id\<close> is the identity function of HOL.
  Suits and ranks are the strings the source compares.
\<close>

record card =
  suit :: string
  rank :: string
  card_id :: string

record player =
  player_id :: string
  nickname :: string
  hand :: "card list"
  ready :: bool
  score :: int
  is_bot :: bool

text \<open>
  \<open>Room.players\<close> is a dict in insertion order: an association list, the key first.
  \<open>eight_drawn_cards\<close> is not a dataclass field: the source attaches it at run time and
  tests it with \<open>hasattr\<close>, so it is optional here (\<open>None\<close>: the attribute is absent).
  The countdown fields are left out: none of the functions modelled reads or writes them.
\<close>

record room =
  room_id :: string
  players :: "(string \<times> player) list"
  deck :: "card list"
  discard_pile :: "card list"
  current_player_index :: nat
  dealer_index :: nat
  game_started :: bool
  chosen_suit :: "string option"
  waiting_for_eight :: bool
  card_drawn_this_turn :: bool
  eight_draw_used :: bool
  last_loser_id :: "string option"
  deck_size :: int
  creator_id :: "string option"
  is_private :: bool
  eight_drawn_cards :: "string set option"

text \<open>Python truthiness of an \<open>Optional[str]\<close>: \<open>None\<close> and the empty string are false.\<close>

definition truthy :: "string option \<Rightarrow> bool" where
  "truthy s = (case s of None \<Rightarrow> False | Some v \<Rightarrow> v \<noteq> [])"

section \<open>Legality and valuation\<close>

text \<open>
  server.py defines \<open>can_play_card\<close> twice in class GameServer. The first definition
  (line 249, three parameters) is named \<open>can_play_card_first\<close> here; the second
  (line 701, four parameters) replaces it in the class and keeps the name.
\<close>

definition can_play_card_first :: "card \<Rightarrow> card \<Rightarrow> string option \<Rightarrow> bool" where
  "can_play_card_first c top_card chosen =
     (if rank c = ''Q'' then True
      else if truthy chosen then (Some (suit c) = chosen \<or> rank c = rank top_card)
      else (suit c = suit top_card \<or> rank c = rank top_card))"

definition can_play_card :: "card \<Rightarrow> card \<Rightarrow> string option \<Rightarrow> bool \<Rightarrow> bool" where
  "can_play_card c top_card chosen waiting =
     (if waiting then rank c = ''2''
      else if rank c = ''Q'' then True
      else if truthy chosen then (Some (suit c) = chosen \<or> rank c = rank top_card)
      else (suit c = suit top_card \<or> rank c = rank top_card))"

text \<open>
  \<open>int(card.rank)\<close> on the numeral ranks the source lists; the ranks 2 to 5 are
  those the 36-card deck leaves out, and are named apart.
\<close>

definition low_ranks :: "string list" where
  "low_ranks = [''2'', ''3'', ''4'', ''5'']"

definition numeral_ranks :: "string list" where
  "numeral_ranks = low_ranks @ [''6'', ''7'', ''8'', ''9'', ''10'']"

fun digit_val :: "char \<Rightarrow> int" where
  "digit_val ch = int (of_char ch) - 48"

definition py_int :: "string \<Rightarrow> int" where
  "py_int s = foldl (\<lambda>a ch. 10 * a + digit_val ch) 0 s"

definition calculate_card_points :: "card \<Rightarrow> int" where
  "calculate_card_points c =
     (if rank c \<in> set numeral_ranks then py_int (rank c)
      else if rank c = ''J'' then 2
      else if rank c = ''Q'' then (if suit c = ''spades'' then 40 else 20)
      else if rank c = ''K'' then 4
      else if rank c = ''A'' then 11
      else 0)"

definition calculate_hand_points :: "card list \<Rightarrow> int" where
  "calculate_hand_points h = sum_list (map calculate_card_points h)"

section \<open>Outbound events\<close>

text \<open>
  The message dicts the handlers build, one record per \<open>type\<close>, with the keys of the
  source (prefixed, since record fields share one name space). A card value in a
  message is the image of \<open>Card.to_dict\<close>, which keeps all three fields, so the card
  itself stands for it. \<open>list(room.eight_drawn_cards)\<close> has no fixed order and is kept
  as the set. Texts that are not ASCII in the source are named by a constructor.
\<close>

datatype error_message =
    Not_your_turn              \<comment> \<open>'Not your turn'\<close>
  | Card_not_found             \<comment> \<open>'Card not found'\<close>
  | No_cards_on_table          \<comment> \<open>'No cards on table'\<close>
  | Must_play_a_2_or_draw      \<comment> \<open>'Must play a 2 or draw cards'\<close>
  | Cannot_play_this_card      \<comment> \<open>'Cannot play this card'\<close>
  | Eight_draw_already_used    \<comment> \<open>line 1044\<close>
  | Already_drew_this_turn     \<comment> \<open>line 1140\<close>
  | Deck_is_empty              \<comment> \<open>line 1146\<close>
  | Cannot_skip_on_eight       \<comment> \<open>line 1377\<close>
  | Draw_a_card_first          \<comment> \<open>line 1383\<close>

text \<open>\<open>Player.to_dict\<close>: the public view of a seat, with the size of the hand only.\<close>

record player_view =
  view_id :: string
  view_nickname :: string
  hand_count :: nat
  view_ready :: bool
  view_score :: int
  view_is_bot :: bool

definition to_dict :: "player \<Rightarrow> player_view" where
  "to_dict p = \<lparr>view_id = player_id p, view_nickname = nickname p,
                hand_count = length (hand p), view_ready = ready p,
                view_score = score p, view_is_bot = is_bot p\<rparr>"

text \<open>\<open>Room.to_dict\<close>.\<close>

record room_view =
  rv_id :: string
  rv_players :: "player_view list"
  rv_player_count :: nat
  rv_game_started :: bool
  rv_deck_size :: int
  rv_creator_id :: "string option"
  rv_is_private :: bool

definition room_to_dict :: "room \<Rightarrow> room_view" where
  "room_to_dict r = \<lparr>rv_id = room_id r, rv_players = map (to_dict \<circ> snd) (players r),
                     rv_player_count = length (players r), rv_game_started = game_started r,
                     rv_deck_size = deck_size r, rv_creator_id = creator_id r,
                     rv_is_private = is_private r\<rparr>"

text \<open>The three \<open>forced_draw_*\<close> keys, present together or not at all.\<close>

record forced_draw =
  forced_draw_player_id :: string
  forced_draw_player_nickname :: string
  forced_draw_count :: nat

record game_started_msg =
  gs_hand :: "card list"
  gs_top_card :: card
  gs_current_player :: string
  gs_dealer :: string
  gs_players :: "player_view list"
  gs_deck_count :: nat
  gs_chosen_suit :: "string option"
  gs_waiting_for_eight :: bool
  gs_eight_draw_used :: bool
  gs_eight_drawn_cards :: "string set"
  gs_deck_size :: int
  gs_forced_draw :: "forced_draw option"

record card_played_msg =
  cp_player_id :: string
  cp_player_nickname :: string
  cp_card :: card
  cp_top_card :: card
  cp_current_player :: string
  cp_hand :: "card list"
  cp_players :: "player_view list"
  cp_deck_count :: nat
  cp_chosen_suit :: "string option"
  cp_waiting_for_eight :: bool
  cp_eight_draw_used :: bool
  cp_card_drawn_this_turn :: bool
  cp_eight_drawn_cards :: "string set"
  cp_deck_size :: int
  cp_forced_draw :: "forced_draw option"

record card_drawn_msg =
  cd_player_id :: string
  cd_player_nickname :: string
  cd_cards_count :: nat
  cd_current_player :: string
  cd_hand :: "card list"
  cd_players :: "player_view list"
  cd_deck_count :: nat
  cd_waiting_for_eight :: bool
  cd_eight_draw_used :: bool
  cd_card_drawn_this_turn :: bool
  cd_chosen_suit :: "string option"
  cd_top_card :: "card option"
  cd_eight_drawn_cards :: "string set"

record turn_skipped_msg =
  ts_player_id :: string
  ts_player_nickname :: string
  ts_current_player :: string
  ts_hand :: "card list"
  ts_players :: "player_view list"
  ts_card_drawn_this_turn :: bool
  ts_chosen_suit :: "string option"
  ts_waiting_for_eight :: bool
  ts_eight_draw_used :: bool
  ts_eight_drawn_cards :: "string set"
  ts_top_card :: "card option"

text \<open>One entry of \<open>results\<close> in \<open>game_ended\<close>; only the winner's entry has \<open>queen_bonus\<close>.\<close>

record round_result =
  res_player_id :: string
  res_nickname :: string
  res_points :: int
  res_total_score :: int
  res_hand :: "card list"
  res_queen_bonus :: "int option"

record game_ended_msg =
  ge_winner_id :: string
  ge_winning_card :: "card option"
  ge_results :: "round_result list"

record final_winner_msg =
  fw_winner_id :: "string option"
  fw_winner_nickname :: string
  fw_kicked_players :: "string list"

datatype event =
    Error error_message
  | Game_started game_started_msg
  | Card_played card_played_msg
  | Card_drawn card_drawn_msg
  | Turn_skipped turn_skipped_msg
  | Deck_shuffled
  | Game_ended game_ended_msg
  | Final_winner final_winner_msg
  | Player_kicked string string      \<comment> \<open>player_id, player_nickname\<close>
  | Room_updated room_view
  | Rooms_list "room_view list"

text \<open>
  Where a message goes: \<open>ws.send\<close> to the requesting socket, \<open>send_to_player\<close> to one
  seat, \<open>broadcast_to_room\<close> to the seats of a room, and the loop of \<open>broadcast_rooms\<close>
  over every client.
\<close>

datatype dest = Reply | To_player string | To_room string | To_all

datatype py_error = IndexError | AttributeError | KeyError | ValueError

section \<open>Room state machine: shared pieces\<close>

definition player_ids :: "room \<Rightarrow> string list" where
  "player_ids r = map fst (players r)"

text \<open>
  \<open>d[key]\<close> followed by a mutation of the object found, for the dicts kept as
  association lists (\<open>room.players\<close>, \<open>self.rooms\<close>): the entry of the key is rewritten
  in place. A dict holds a key once, so the first entry is the entry.
\<close>

fun update_entry :: "'k \<Rightarrow> ('v \<Rightarrow> 'v) \<Rightarrow> ('k \<times> 'v) list \<Rightarrow> ('k \<times> 'v) list" where
  "update_entry key f [] = []"
| "update_entry key f ((k, v) # kvs) =
     (if k = key then (k, f v) # kvs else (k, v) # update_entry key f kvs)"

text \<open>
  Reads of a player who is known to be in the room (a key taken from \<open>player_ids\<close>, or
  the caller once the turn check has passed). The \<open>None\<close> branch is the KeyError the
  source cannot reach at these places.
\<close>

definition hand_of :: "room \<Rightarrow> string \<Rightarrow> card list" where
  "hand_of r pid = (case map_of (players r) pid of Some p \<Rightarrow> hand p | None \<Rightarrow> [])"

definition nickname_of :: "room \<Rightarrow> string \<Rightarrow> string" where
  "nickname_of r pid = (case map_of (players r) pid of Some p \<Rightarrow> nickname p | None \<Rightarrow> [])"

text \<open>
  \<open>replenish_deck\<close> (line 277). \<open>random.shuffle\<close> is not code of this repository: the
  permutation it produces is the parameter \<open>shuffle\<close>.
\<close>

definition replenish_deck :: "(card list \<Rightarrow> card list) \<Rightarrow> room \<Rightarrow> bool \<times> room" where
  "replenish_deck shuffle r =
     (if length (deck r) = 0 \<and> length (discard_pile r) > 1 then
        (let top_card = last (discard_pile r);
             cards_to_shuffle = shuffle (butlast (discard_pile r))
         in (True, r\<lparr>deck := cards_to_shuffle, discard_pile := [top_card]\<rparr>))
      else (False, r))"

text \<open>\<open>target.hand.append(room.deck.pop())\<close>, used where the deck is known non-empty.\<close>

definition draw_to :: "string \<Rightarrow> room \<Rightarrow> room" where
  "draw_to target r =
     r\<lparr>deck := butlast (deck r),
       players := update_entry target (\<lambda>p. p\<lparr>hand := hand p @ [last (deck r)]\<rparr>) (players r)\<rparr>"

text \<open>
  One round of the forced draw of a 6 or a 7 (lines 914-918 and the body of the loop
  at 926-931): replenish, then draw if the deck has a card. The state is the room, the
  count of cards drawn and whether a reshuffle happened.
\<close>

definition forced_draw_one ::
  "(card list \<Rightarrow> card list) \<Rightarrow> string \<Rightarrow> room \<times> nat \<times> bool \<Rightarrow> room \<times> nat \<times> bool" where
  "forced_draw_one shuffle target st =
     (case st of (r, cnt, sh) \<Rightarrow>
        (case replenish_deck shuffle r of (shuffled, r1) \<Rightarrow>
           if deck r1 \<noteq> [] then (draw_to target r1, cnt + 1, sh \<or> shuffled)
           else (r1, cnt, sh \<or> shuffled)))"

text \<open>
  The ids of the 8-chain sent to one seat: the set when the seat is the one named and
  the attribute exists, else the empty list.
\<close>

definition eight_drawn_for :: "room \<Rightarrow> string \<Rightarrow> string \<Rightarrow> string set" where
  "eight_drawn_for r pid named =
     (if pid = named then (case eight_drawn_cards r of None \<Rightarrow> {} | Some S \<Rightarrow> S) else {})"

text \<open>The seat after the current one: \<open>player_ids[(current_player_index + 1) % len(player_ids)]\<close>.\<close>

definition next_seat :: "room \<Rightarrow> string" where
  "next_seat r = player_ids r ! ((current_player_index r + 1) mod length (player_ids r))"

definition top_card_opt :: "room \<Rightarrow> card option" where
  "top_card_opt r = (if discard_pile r = [] then None else Some (last (discard_pile r)))"

definition deck_shuffled_events :: "room \<Rightarrow> (dest \<times> event) list" where
  "deck_shuffled_events r = map (\<lambda>k. (To_player k, Deck_shuffled)) (player_ids r)"

text \<open>
  What a handler did with a room. \<open>Refused\<close>: an early return, with the error events
  replied on the socket (none for a bot call, where \<open>ws\<close> is \<open>None\<close>). \<open>Crashed\<close>: a
  Python exception left the handler. \<open>Round_won\<close>: the handler called
  \<open>handle_game_end\<close> for the caller and returned. \<open>Applied\<close>: the action went through.
  Each carries the room as the handler left it.
\<close>

datatype room_outcome =
    Refused room "event list"
  | Crashed room py_error
  | Round_won room
  | Applied room "(dest \<times> event) list"

text \<open>The room an outcome carries.\<close>

fun room_of :: "room_outcome \<Rightarrow> room" where
  "room_of (Refused r evs) = r"
| "room_of (Crashed r e) = r"
| "room_of (Round_won r) = r"
| "room_of (Applied r evs) = r"

definition refuse :: "bool \<Rightarrow> room \<Rightarrow> error_message \<Rightarrow> room_outcome" where
  "refuse has_ws r m = Refused r (if has_ws then [Error m] else [])"

text \<open>\<open>await ws.send(...)\<close> with no \<open>if ws\<close> guard: AttributeError when \<open>ws\<close> is \<open>None\<close>.\<close>

definition refuse_unguarded :: "bool \<Rightarrow> room \<Rightarrow> error_message \<Rightarrow> room_outcome" where
  "refuse_unguarded has_ws r m = (if has_ws then Refused r [Error m] else Crashed r AttributeError)"

section \<open>handle\_play\_card (line 832), from the turn check on\<close>

record play_data =
  data_card_id :: "string option"
  data_chosen_suit :: "string option"

definition forced_draw_info :: "room \<Rightarrow> string option \<Rightarrow> nat \<Rightarrow> forced_draw option" where
  "forced_draw_info r forced_id forced_count =
     (case forced_id of
        None \<Rightarrow> None
      | Some f \<Rightarrow>
          if f \<noteq> [] \<and> forced_count > 0 then
            Some \<lparr>forced_draw_player_id = f, forced_draw_player_nickname = nickname_of r f,
                  forced_draw_count = forced_count\<rparr>
          else None)"

definition card_played_events ::
  "string \<Rightarrow> card \<Rightarrow> string option \<Rightarrow> nat \<Rightarrow> room \<Rightarrow> (dest \<times> event) list" where
  "card_played_events pid c forced_id forced_count r =
     map (\<lambda>(k, p). (To_player k, Card_played
        \<lparr>cp_player_id = pid,
         cp_player_nickname = nickname_of r pid,
         cp_card = c,
         cp_top_card = last (discard_pile r),
         cp_current_player = player_ids r ! current_player_index r,
         cp_hand = hand p,
         cp_players = map (to_dict \<circ> snd) (players r),
         cp_deck_count = length (deck r),
         cp_chosen_suit = chosen_suit r,
         cp_waiting_for_eight = waiting_for_eight r,
         cp_eight_draw_used = eight_draw_used r,
         cp_card_drawn_this_turn = False,
         cp_eight_drawn_cards = eight_drawn_for r k (player_ids r ! current_player_index r),
         cp_deck_size = deck_size r,
         cp_forced_draw = forced_draw_info r forced_id forced_count\<rparr>)) (players r)"

text \<open>Lines 884-887: a legal play under an 8-chain ends the chain.\<close>

definition chain_resolved :: "room \<Rightarrow> room" where
  "chain_resolved r =
     r\<lparr>waiting_for_eight := False, eight_draw_used := False,
       eight_drawn_cards := map_option (\<lambda>_. {}) (eight_drawn_cards r)\<rparr>"

text \<open>
  Lines 896-902: the card leaves the hand for the discard pile, and a card that is
  not a Queen consumes the chosen suit.
\<close>

definition discarded :: "string \<Rightarrow> card \<Rightarrow> room \<Rightarrow> room" where
  "discarded pid c r =
     (let r1 = r\<lparr>players := update_entry pid (\<lambda>p. p\<lparr>hand := remove1 c (hand p)\<rparr>) (players r),
                 discard_pile := discard_pile r @ [c]\<rparr>
      in if rank c \<noteq> ''Q'' then r1\<lparr>chosen_suit := None\<rparr> else r1)"

text \<open>
  Lines 895-1010: the card is discarded, the forced draw of a 6 or 7 is resolved,
  then the win check, then the effects of A, 8 and Q, the turn pointer and the messages.
  The bot move scheduled at the end is a separate task and is not part of this step.
\<close>

definition play_effects ::
  "(card list \<Rightarrow> card list) \<Rightarrow> string \<Rightarrow> play_data \<Rightarrow> card \<Rightarrow> room \<Rightarrow> room_outcome" where
  "play_effects shuffle pid data c room0 =
     (let ids = player_ids room0;
          n = length ids;
          room2 = discarded pid c room0;
          next_player_index = (current_player_index room2 + 1) mod n;
          target = ids ! next_player_index
      in case (if rank c = ''6'' then
                 (case forced_draw_one shuffle target (room2, 0, False) of
                    (r, cnt, sh) \<Rightarrow> (r, (next_player_index + 1) mod n, Some target, cnt, sh))
               else if rank c = ''7'' then
                 (case forced_draw_one shuffle target
                         (forced_draw_one shuffle target (room2, 0, False)) of
                    (r, cnt, sh) \<Rightarrow> (r, (next_player_index + 1) mod n, Some target, cnt, sh))
               else (room2, next_player_index, None, 0, False))
         of (room3, next_index, forced_id, forced_count, deck_was_shuffled) \<Rightarrow>
           if length (hand_of room3 pid) = 0 then Round_won room3
           else
             (let next_index2 = (if rank c = ''A'' then (next_index + 1) mod n else next_index);
                  room4 = (if rank c = ''A'' then room3
                           else if rank c = ''8'' \<and> deck_size room3 = 52 then
                             room3\<lparr>waiting_for_eight := True, eight_draw_used := False\<rparr>
                           else if rank c = ''Q'' then
                             (if truthy (data_chosen_suit data)
                              then room3\<lparr>chosen_suit := data_chosen_suit data\<rparr> else room3)
                           else room3);
                  room5 = room4\<lparr>current_player_index := next_index2, card_drawn_this_turn := False\<rparr>
              in Applied room5
                   (card_played_events pid c forced_id forced_count room5
                    @ (if deck_was_shuffled then deck_shuffled_events room5 else []))))"

text \<open>
  Lines 849-893: the turn check, the search of the card in the caller's hand, and the
  legality check. \<open>has_ws\<close> says whether \<open>ws\<close> is a socket (\<open>None\<close> for a bot call).
\<close>

definition play_card ::
  "(card list \<Rightarrow> card list) \<Rightarrow> bool \<Rightarrow> string \<Rightarrow> play_data \<Rightarrow> room \<Rightarrow> room_outcome" where
  "play_card shuffle has_ws pid data r =
     (if current_player_index r \<ge> length (player_ids r) then Crashed r IndexError
      else if player_ids r ! current_player_index r \<noteq> pid then refuse has_ws r Not_your_turn
      else
        (case map_of (players r) pid of
           None \<Rightarrow> Crashed r KeyError
         | Some player \<Rightarrow>
            (case find (\<lambda>c. Some (card_id c) = data_card_id data) (hand player) of
               None \<Rightarrow> refuse has_ws r Card_not_found
             | Some c \<Rightarrow>
                 if discard_pile r = [] then refuse has_ws r No_cards_on_table
                 else
                   (let top_card = last (discard_pile r) in
                    if waiting_for_eight r then
                      (let is_drawn_card =
                             (case eight_drawn_cards r of None \<Rightarrow> False | Some S \<Rightarrow> card_id c \<in> S)
                       in if rank c \<noteq> ''2'' \<and> \<not> is_drawn_card
                          then refuse_unguarded has_ws r Must_play_a_2_or_draw
                          else play_effects shuffle pid data c (chain_resolved r))
                    else if \<not> can_play_card c top_card (chosen_suit r) (waiting_for_eight r)
                         then refuse has_ws r Cannot_play_this_card
                         else play_effects shuffle pid data c r))))"

section \<open>handle\_draw\_card (line 1012), from the turn check on\<close>

text \<open>The test of lines 1088-1091 and 1117-1120 on a drawn card.\<close>

definition qualifies :: "card \<Rightarrow> card \<Rightarrow> bool" where
  "qualifies c top_card =
     (rank c = ''2'' \<or> rank c = ''Q'' \<or> rank c = ''8'' \<or> suit c = suit top_card)"

text \<open>
  The loop of lines 1058-1096. The first argument is the number of iterations the
  guard \<open>iterations < max_iterations\<close> still allows; the handler starts it at 1000.
  The state is the room, \<open>drawn_cards\<close> and \<open>deck_was_shuffled\<close>.
\<close>

fun eight_draw_loop ::
  "(card list \<Rightarrow> card list) \<Rightarrow> string \<Rightarrow> nat \<Rightarrow> room \<times> card list \<times> bool
     \<Rightarrow> room \<times> card list \<times> bool" where
  "eight_draw_loop shuffle pid 0 st = st"
| "eight_draw_loop shuffle pid (Suc k) (r, drawn, was_shuffled) =
     (case replenish_deck shuffle r of (shuffled, r1) \<Rightarrow>
        if deck r1 = [] then (r1, drawn, was_shuffled \<or> shuffled)
        else if discard_pile r1 = [] then (r1, drawn, was_shuffled \<or> shuffled)
        else
          (let c = last (deck r1);
               r2 = draw_to pid r1;
               top_card = last (discard_pile r2)
           in if qualifies c top_card then (r2, drawn @ [c], was_shuffled \<or> shuffled)
              else eight_draw_loop shuffle pid k (r2, drawn @ [c], was_shuffled \<or> shuffled)))"

definition max_iterations :: nat where
  "max_iterations = 1000"

text \<open>Lines 1108-1111 and 1125-1128: the chain is given up and the turn passes.\<close>

definition clear_chain :: "room \<Rightarrow> room" where
  "clear_chain r =
     r\<lparr>waiting_for_eight := False, eight_draw_used := False, eight_drawn_cards := Some {},
       current_player_index := (current_player_index r + 1) mod length (player_ids r)\<rparr>"

definition card_drawn_events :: "string \<Rightarrow> nat \<Rightarrow> room \<Rightarrow> (dest \<times> event) list" where
  "card_drawn_events pid cards_count r =
     map (\<lambda>(k, p). (To_player k, Card_drawn
        \<lparr>cd_player_id = pid,
         cd_player_nickname = nickname_of r pid,
         cd_cards_count = cards_count,
         cd_current_player = player_ids r ! current_player_index r,
         cd_hand = hand p,
         cd_players = map (to_dict \<circ> snd) (players r),
         cd_deck_count = length (deck r),
         cd_waiting_for_eight = waiting_for_eight r,
         cd_eight_draw_used = eight_draw_used r,
         cd_card_drawn_this_turn = card_drawn_this_turn r,
         cd_chosen_suit = chosen_suit r,
         cd_top_card = top_card_opt r,
         cd_eight_drawn_cards = eight_drawn_for r k pid\<rparr>)) (players r)"

definition draw_card :: "(card list \<Rightarrow> card list) \<Rightarrow> bool \<Rightarrow> string \<Rightarrow> room \<Rightarrow> room_outcome" where
  "draw_card shuffle has_ws pid r =
     (if current_player_index r \<ge> length (player_ids r) then Crashed r IndexError
      else if player_ids r ! current_player_index r \<noteq> pid then refuse has_ws r Not_your_turn
      else if waiting_for_eight r then
        (if eight_draw_used r then refuse has_ws r Eight_draw_already_used
         else
           (case eight_draw_loop shuffle pid max_iterations (r\<lparr>eight_draw_used := True\<rparr>, [], False) of
              (r2, drawn_cards, deck_was_shuffled) \<Rightarrow>
                (let r3 = r2\<lparr>eight_drawn_cards :=
                               Some ((case eight_drawn_cards r2 of None \<Rightarrow> {} | Some S \<Rightarrow> S)
                                     \<union> set (map card_id drawn_cards))\<rparr>;
                     r4 = (if drawn_cards = [] then clear_chain r3
                           else
                             (let last_card = last drawn_cards;
                                  card_matches =
                                    (if discard_pile r3 \<noteq> []
                                     then qualifies last_card (last (discard_pile r3)) else False)
                              in if \<not> card_matches then clear_chain r3 else r3))
                 in Applied r4
                      ((if deck_was_shuffled then deck_shuffled_events r4 else [])
                       @ card_drawn_events pid (length drawn_cards) r4))))
      else
        (if card_drawn_this_turn r then refuse_unguarded has_ws r Already_drew_this_turn
         else
           (case replenish_deck shuffle r of
              (deck_shuffled, r1) \<Rightarrow>
                if deck r1 = [] then refuse_unguarded has_ws r1 Deck_is_empty
                else
                  (let r2 = (draw_to pid r1)\<lparr>card_drawn_this_turn := True\<rparr>
                   in Applied r2
                        ((if deck_shuffled then deck_shuffled_events r2 else [])
                         @ card_drawn_events pid 1 r2)))))"

section \<open>handle\_skip\_turn (line 1351), from the turn check on\<close>

definition turn_skipped_events :: "string \<Rightarrow> room \<Rightarrow> (dest \<times> event) list" where
  "turn_skipped_events pid r =
     map (\<lambda>(k, p). (To_player k, Turn_skipped
        \<lparr>ts_player_id = pid,
         ts_player_nickname = nickname_of r pid,
         ts_current_player = player_ids r ! current_player_index r,
         ts_hand = hand p,
         ts_players = map (to_dict \<circ> snd) (players r),
         ts_card_drawn_this_turn = False,
         ts_chosen_suit = chosen_suit r,
         ts_waiting_for_eight = waiting_for_eight r,
         ts_eight_draw_used = eight_draw_used r,
         ts_eight_drawn_cards = eight_drawn_for r k (player_ids r ! current_player_index r),
         ts_top_card = top_card_opt r\<rparr>)) (players r)"

definition skip_turn :: "bool \<Rightarrow> string \<Rightarrow> room \<Rightarrow> room_outcome" where
  "skip_turn has_ws pid r =
     (if current_player_index r \<ge> length (player_ids r) then Crashed r IndexError
      else if player_ids r ! current_player_index r \<noteq> pid then refuse has_ws r Not_your_turn
      else if waiting_for_eight r then refuse has_ws r Cannot_skip_on_eight
      else if \<not> card_drawn_this_turn r then refuse has_ws r Draw_a_card_first
      else
        (let r1 = r\<lparr>current_player_index := (current_player_index r + 1) mod length (player_ids r),
                    card_drawn_this_turn := False\<rparr>
         in Applied r1 (turn_skipped_events pid r1)))"

section \<open>Round end: the pieces of handle\_game\_end (line 1198)\<close>

text \<open>Lines 1204-1210: the bonus of the card on top of the discard pile.\<close>

definition queen_bonus_of :: "room \<Rightarrow> int" where
  "queen_bonus_of r =
     (case top_card_opt r of
        None \<Rightarrow> 0
      | Some winning_card \<Rightarrow>
          if rank winning_card = ''Q'' then (if suit winning_card = ''spades'' then - 40 else - 20)
          else 0)"

text \<open>Lines 1214-1235, the body of the loop: the new seat and its entry in \<open>results\<close>.\<close>

definition tally_player :: "string \<Rightarrow> int \<Rightarrow> string \<times> player \<Rightarrow> (string \<times> player) \<times> round_result" where
  "tally_player winner_id queen_bonus kp =
     (case kp of (k, p) \<Rightarrow>
        if k \<noteq> winner_id then
          (let points = calculate_hand_points (hand p);
               p1 = p\<lparr>score := score p + points\<rparr>
           in ((k, p1), \<lparr>res_player_id = k, res_nickname = nickname p, res_points = points,
                         res_total_score = score p1, res_hand = hand p, res_queen_bonus = None\<rparr>))
        else
          (let p1 = p\<lparr>score := score p + queen_bonus\<rparr>
           in ((k, p1), \<lparr>res_player_id = k, res_nickname = nickname p, res_points = queen_bonus,
                         res_total_score = score p1, res_hand = [],
                         res_queen_bonus = Some queen_bonus\<rparr>)))"

text \<open>
  The loop itself, over the seats in dict order; \<open>tallied\<close> are the seats as it leaves
  them and \<open>round_results\<close> the list \<open>results\<close>.
\<close>

definition tally :: "room \<Rightarrow> string \<Rightarrow> ((string \<times> player) \<times> round_result) list" where
  "tally r winner_id = map (tally_player winner_id (queen_bonus_of r)) (players r)"

definition tallied :: "room \<Rightarrow> string \<Rightarrow> (string \<times> player) list" where
  "tallied r winner_id = map fst (tally r winner_id)"

definition round_results :: "room \<Rightarrow> string \<Rightarrow> round_result list" where
  "round_results r winner_id = map snd (tally r winner_id)"

text \<open>Lines 1239-1244: the non-winner with the most points of the round, the first on a tie.\<close>

definition round_loser_step :: "string \<Rightarrow> string option \<times> int \<Rightarrow> round_result \<Rightarrow> string option \<times> int" where
  "round_loser_step winner_id st res =
     (case st of (round_loser_id, max_round_points) \<Rightarrow>
        if res_player_id res \<noteq> winner_id \<and> res_points res > max_round_points
        then (Some (res_player_id res), res_points res)
        else (round_loser_id, max_round_points))"

definition round_loser :: "string \<Rightarrow> round_result list \<Rightarrow> string option" where
  "round_loser winner_id results = fst (foldl (round_loser_step winner_id) (None, - 1) results)"

text \<open>Lines 1247-1254: exactly 101 goes back to 0, more than 101 is marked.\<close>

definition reset_at_101 :: "string \<times> player \<Rightarrow> string \<times> player" where
  "reset_at_101 kp = (case kp of (k, p) \<Rightarrow> if score p = 101 then (k, p\<lparr>score := 0\<rparr>) else (k, p))"

definition players_to_kick :: "(string \<times> player) list \<Rightarrow> string list" where
  "players_to_kick ps = map fst (filter (\<lambda>(k, p). score p > 101) ps)"

text \<open>
  Lines 1239-1261 on the room: the scores after the rule of 101, and \<open>last_loser_id\<close>
  set to the round's loser unless that seat is marked for removal.
\<close>

definition after_score_rules :: "room \<Rightarrow> string \<Rightarrow> room" where
  "after_score_rules r winner_id =
     r\<lparr>players := map reset_at_101 (tallied r winner_id),
       last_loser_id :=
         (case round_loser winner_id (round_results r winner_id) of
            None \<Rightarrow> None
          | Some l \<Rightarrow>
              if l \<noteq> [] \<and> l \<notin> set (players_to_kick (tallied r winner_id)) then Some l else None)\<rparr>"

text \<open>Lines 1313-1315: the marked seats leave the room.\<close>

definition without_kicked :: "string list \<Rightarrow> room \<Rightarrow> room" where
  "without_kicked kick r = r\<lparr>players := filter (\<lambda>(k, _). k \<notin> set kick) (players r)\<rparr>"

text \<open>
  Lines 1283-1288: the lowest score among the seats that stay, the first on a tie;
  \<open>min_score\<close> starts at infinity, which is \<open>None\<close> here.
\<close>

definition final_winner_step ::
  "string list \<Rightarrow> string option \<times> int option \<Rightarrow> string \<times> player \<Rightarrow> string option \<times> int option" where
  "final_winner_step kick st kp =
     (case st of (final_winner_id, min_score) \<Rightarrow>
       (case kp of (k, p) \<Rightarrow>
          if k \<notin> set kick \<and> (case min_score of None \<Rightarrow> True | Some m \<Rightarrow> score p < m)
          then (Some k, Some (score p))
          else (final_winner_id, min_score)))"

definition final_winner :: "string list \<Rightarrow> (string \<times> player) list \<Rightarrow> string option" where
  "final_winner kick ps = fst (foldl (final_winner_step kick) (None, None) ps)"

text \<open>Lines 1328-1337: the room goes back to the lobby.\<close>

definition reset_room :: "room \<Rightarrow> room" where
  "reset_room r =
     r\<lparr>game_started := False,
       players := map (\<lambda>(k, p). (k, p\<lparr>hand := [], ready := is_bot p\<rparr>)) (players r),
       deck := [], discard_pile := [], chosen_suit := None,
       waiting_for_eight := False, eight_draw_used := False\<rparr>"

section \<open>The server: rooms, clients and the durable store\<close>

text \<open>
  The dicts of GameServer as association lists. \<open>db_rooms\<close> holds the ids of the rooms
  the durable store has a row for: \<open>GameDatabase.delete_room\<close> deletes the room's rows,
  and nothing else of the store is read by the handlers modelled here. The saves
  started with \<open>asyncio.create_task\<close> run after the handler and are not part of its step.
\<close>

type_synonym ws = nat

record server =
  rooms :: "(string \<times> room) list"
  clients :: "(ws \<times> string) list"
  player_rooms :: "(string \<times> string) list"
  db_rooms :: "string set"

text \<open>The room object is mutated in place: the entry of \<open>self.rooms\<close> is the new room.\<close>

definition store_room :: "string \<Rightarrow> room \<Rightarrow> server \<Rightarrow> server" where
  "store_room rid r s = s\<lparr>rooms := update_entry rid (\<lambda>_. r) (rooms s)\<rparr>"

definition del_key :: "'k \<Rightarrow> ('k \<times> 'v) list \<Rightarrow> ('k \<times> 'v) list" where
  "del_key k d = filter (\<lambda>(x, _). x \<noteq> k) d"

text \<open>\<open>cleanup_bot_only_rooms\<close> (line 105) and \<open>broadcast_rooms\<close> (line 1513).\<close>

definition bot_only :: "room \<Rightarrow> bool" where
  "bot_only r = (length (filter (\<lambda>p. \<not> is_bot p) (map snd (players r))) = 0 \<and> length (players r) > 0)"

definition cleanup_bot_only_rooms :: "server \<Rightarrow> server" where
  "cleanup_bot_only_rooms s = s\<lparr>rooms := filter (\<lambda>(k, r). \<not> bot_only r) (rooms s)\<rparr>"

definition listed :: "room \<Rightarrow> bool" where
  "listed r = (\<not> game_started r \<and> list_all (\<lambda>p. score p = 0) (map snd (players r))
               \<and> list_ex (\<lambda>p. \<not> is_bot p) (map snd (players r)) \<and> \<not> is_private r)"

definition broadcast_rooms :: "server \<Rightarrow> server \<times> (dest \<times> event) list" where
  "broadcast_rooms s =
     (let s1 = cleanup_bot_only_rooms s
      in (s1, [(To_all, Rooms_list (map room_to_dict (filter listed (map snd (rooms s1)))))]))"

text \<open>What a handler leaves behind: the server, the messages sent, and the exception if one escaped.\<close>

record outcome =
  new_state :: server
  sent :: "(dest \<times> event) list"
  raised :: "py_error option"

definition returned :: "server \<Rightarrow> (dest \<times> event) list \<Rightarrow> outcome" where
  "returned s evs = \<lparr>new_state = s, sent = evs, raised = None\<rparr>"

text \<open>\<open>handle_game_end\<close> (line 1198).\<close>

definition handle_game_end :: "string \<Rightarrow> string \<Rightarrow> server \<Rightarrow> outcome" where
  "handle_game_end rid winner_id s =
     (case map_of (rooms s) rid of
        None \<Rightarrow> returned s []
      | Some room0 \<Rightarrow>
         (let results = round_results room0 winner_id;
              kick = players_to_kick (tallied room0 winner_id);
              room1 = after_score_rules room0 winner_id;
              ended = map (\<lambda>k. (To_player k, Game_ended
                          \<lparr>ge_winner_id = winner_id, ge_winning_card = top_card_opt room1,
                           ge_results = results\<rparr>)) (player_ids room1)
          in if kick \<noteq> [] \<and> int (length (players room1)) - int (length kick) < 2 then
               (let final_winner_id = final_winner kick (players room1);
                    finals = map (\<lambda>k. (To_player k, Final_winner
                               \<lparr>fw_winner_id = final_winner_id,
                                fw_winner_nickname =
                                  (case final_winner_id of None \<Rightarrow> []
                                   | Some w \<Rightarrow> if w \<noteq> [] then nickname_of room1 w else []),
                                fw_kicked_players = map (nickname_of room1) kick\<rparr>)) (player_ids room1);
                    s1 = s\<lparr>db_rooms := db_rooms s - {rid},
                           rooms := del_key rid (rooms s),
                           player_rooms := filter (\<lambda>(k, _). k \<notin> set (player_ids room1)) (player_rooms s)\<rparr>
                in (case broadcast_rooms s1 of
                      (s2, listing) \<Rightarrow> returned s2 (ended @ finals @ listing)))
             else
               (let room2 = without_kicked kick room1;
                    kicked = map (\<lambda>k. (To_room rid, Player_kicked k (nickname_of room1 k))) kick;
                    room3 = reset_room room2;
                    s1 = store_room rid room3
                           (s\<lparr>player_rooms := filter (\<lambda>(k, _). k \<notin> set kick) (player_rooms s)\<rparr>);
                    updated = map (\<lambda>k. (To_player k, Room_updated (room_to_dict room3))) (player_ids room3)
                in (case broadcast_rooms s1 of
                      (s2, listing) \<Rightarrow> returned s2 (ended @ kicked @ updated @ listing)))))"

section \<open>The handlers as the server runs them\<close>

text \<open>
  The opening lines shared by \<open>handle_play_card\<close>, \<open>handle_draw_card\<close> and
  \<open>handle_skip_turn\<close>: a bot call names the player and the room; a socket is looked
  up in \<open>clients\<close> and \<open>player_rooms\<close>. \<open>None\<close> is the silent return.
\<close>

definition lookup_caller :: "ws option \<Rightarrow> server \<Rightarrow> (string \<times> string) option" where
  "lookup_caller w s =
     (case (case w of None \<Rightarrow> None | Some sock \<Rightarrow> map_of (clients s) sock) of
        None \<Rightarrow> None
      | Some pid \<Rightarrow>
          if pid = [] then None
          else (case map_of (player_rooms s) pid of
                  None \<Rightarrow> None
                | Some rid \<Rightarrow> if rid = [] then None else Some (pid, rid)))"

definition resolve_caller ::
  "ws option \<Rightarrow> string option \<Rightarrow> string option \<Rightarrow> server \<Rightarrow> (string \<times> string) option" where
  "resolve_caller w bot_id room_id_arg s =
     (case (bot_id, room_id_arg) of
        (Some b, Some rid) \<Rightarrow> if b \<noteq> [] \<and> rid \<noteq> [] then Some (b, rid) else lookup_caller w s
      | _ \<Rightarrow> lookup_caller w s)"

text \<open>The started room of the caller, or the silent return of line 846.\<close>

definition started_room :: "string \<Rightarrow> server \<Rightarrow> room option" where
  "started_room rid s =
     (case map_of (rooms s) rid of
        None \<Rightarrow> None
      | Some r \<Rightarrow> if game_started r then Some r else None)"

definition finish :: "string \<Rightarrow> string \<Rightarrow> server \<Rightarrow> room_outcome \<Rightarrow> outcome" where
  "finish rid pid s out =
     (case out of
        Refused r evs \<Rightarrow> returned (store_room rid r s) (map (Pair Reply) evs)
      | Crashed r e \<Rightarrow> \<lparr>new_state = store_room rid r s, sent = [], raised = Some e\<rparr>
      | Round_won r \<Rightarrow> handle_game_end rid pid (store_room rid r s)
      | Applied r evs \<Rightarrow> returned (store_room rid r s) evs)"

definition handle_play_card ::
  "(card list \<Rightarrow> card list) \<Rightarrow> ws option \<Rightarrow> play_data \<Rightarrow> string option \<Rightarrow> string option
     \<Rightarrow> server \<Rightarrow> outcome" where
  "handle_play_card shuffle w data bot_id room_id_arg s =
     (case resolve_caller w bot_id room_id_arg s of
        None \<Rightarrow> returned s []
      | Some (pid, rid) \<Rightarrow>
          (case started_room rid s of
             None \<Rightarrow> returned s []
           | Some r \<Rightarrow> finish rid pid s (play_card shuffle (w \<noteq> None) pid data r)))"

definition handle_draw_card ::
  "(card list \<Rightarrow> card list) \<Rightarrow> ws option \<Rightarrow> string option \<Rightarrow> string option \<Rightarrow> server \<Rightarrow> outcome" where
  "handle_draw_card shuffle w bot_id room_id_arg s =
     (case resolve_caller w bot_id room_id_arg s of
        None \<Rightarrow> returned s []
      | Some (pid, rid) \<Rightarrow>
          (case started_room rid s of
             None \<Rightarrow> returned s []
           | Some r \<Rightarrow> finish rid pid s (draw_card shuffle (w \<noteq> None) pid r)))"

definition handle_skip_turn ::
  "ws option \<Rightarrow> string option \<Rightarrow> string option \<Rightarrow> server \<Rightarrow> outcome" where
  "handle_skip_turn w bot_id room_id_arg s =
     (case resolve_caller w bot_id room_id_arg s of
        None \<Rightarrow> returned s []
      | Some (pid, rid) \<Rightarrow>
          (case started_room rid s of
             None \<Rightarrow> returned s []
           | Some r \<Rightarrow> finish rid pid s (skip_turn (w \<noteq> None) pid r)))"

section \<open>start\_game (line 714)\<close>

definition suits :: "string list" where
  "suits = [''hearts'', ''diamonds'', ''clubs'', ''spades'']"

definition ranks_36 :: "string list" where
  "ranks_36 = [''6'', ''7'', ''8'', ''9'', ''10'', ''J'', ''Q'', ''K'', ''A'']"

text \<open>
  \<open>create_deck\<close> (line 232). \<open>uuid4 k\<close> is the string of the k-th \<open>uuid.uuid4()\<close> the
  loop asks for, and \<open>shuffle\<close> the permutation \<open>random.shuffle\<close> applies; both come
  from outside the repository and are parameters.
\<close>

definition create_deck :: "(nat \<Rightarrow> string) \<Rightarrow> (card list \<Rightarrow> card list) \<Rightarrow> int \<Rightarrow> card list" where
  "create_deck uuid4 shuffle sz =
     (let ranks = (if sz = 36 then ranks_36 else low_ranks @ ranks_36);
          pairs = concat (map (\<lambda>s. map (Pair s) ranks) suits)
      in shuffle (map (\<lambda>(k, sr). \<lparr>suit = fst sr, rank = snd sr, card_id = uuid4 k\<rparr>)
                      (enumerate 0 pairs)))"

text \<open>
  Lines 723-724: five \<open>pop()\<close> for each seat, in dict order. The third component is
  false when a \<open>pop()\<close> found the deck empty (IndexError): the seats before have their
  hands, the seat at which it happened keeps its old one, and the deck is used up.
\<close>

fun deal :: "(string \<times> player) list \<Rightarrow> card list \<Rightarrow> (string \<times> player) list \<times> card list \<times> bool" where
  "deal [] d = ([], d, True)"
| "deal ((k, p) # ps) d =
     (if length d < 5 then ((k, p) # ps, [], False)
      else (case deal ps (take (length d - 5) d) of
              (ps1, d1, ok) \<Rightarrow> ((k, p\<lparr>hand := take 5 (rev d)\<rparr>) # ps1, d1, ok)))"

text \<open>\<open>list.index\<close> on a list that holds the element.\<close>

fun index_of :: "'a list \<Rightarrow> 'a \<Rightarrow> nat" where
  "index_of [] x = 0"
| "index_of (y # ys) x = (if y = x then 0 else Suc (index_of ys x))"

definition game_started_events ::
  "card \<Rightarrow> string option \<Rightarrow> nat \<Rightarrow> room \<Rightarrow> (dest \<times> event) list" where
  "game_started_events first_card forced_id forced_count r =
     map (\<lambda>(k, p). (To_player k, Game_started
        \<lparr>gs_hand = hand p,
         gs_top_card = first_card,
         gs_current_player = player_ids r ! current_player_index r,
         gs_dealer = player_ids r ! dealer_index r,
         gs_players = map (to_dict \<circ> snd) (players r),
         gs_deck_count = length (deck r),
         gs_chosen_suit = chosen_suit r,
         gs_waiting_for_eight = waiting_for_eight r,
         gs_eight_draw_used = eight_draw_used r,
         gs_eight_drawn_cards = eight_drawn_for r k (player_ids r ! current_player_index r),
         gs_deck_size = deck_size r,
         gs_forced_draw = forced_draw_info r forced_id forced_count\<rparr>)) (players r)"

text \<open>
  The room part of \<open>start_game\<close>, in the order of the source. \<open>dealer_pick\<close> is the value
  of \<open>random.randint(0, len(player_ids) - 1)\<close> and \<open>suit_pick\<close> that of
  \<open>random.choice(suits)\<close>.
\<close>

text \<open>Lines 719-724: a fresh deck, and five cards to each seat.\<close>

definition deal_round :: "(nat \<Rightarrow> string) \<Rightarrow> (card list \<Rightarrow> card list) \<Rightarrow> room \<Rightarrow> room \<times> bool" where
  "deal_round uuid4 shuffle r =
     (case deal (players r) (create_deck uuid4 shuffle (deck_size r)) of
        (ps, d, ok) \<Rightarrow> (r\<lparr>game_started := True, players := ps, deck := d\<rparr>, ok))"

text \<open>Lines 727-728: the first card goes on the table (the deck is not empty here).\<close>

definition lay_first_card :: "room \<Rightarrow> room" where
  "lay_first_card r = r\<lparr>deck := butlast (deck r), discard_pile := [last (deck r)]\<rparr>"

text \<open>Line 732: the loser of the last round is still in the room.\<close>

definition loser_present :: "room \<Rightarrow> bool" where
  "loser_present r =
     (case last_loser_id r of None \<Rightarrow> False | Some l \<Rightarrow> l \<noteq> [] \<and> l \<in> set (player_ids r))"

text \<open>Lines 731-738: the dealer, and the seat after the dealer to move first.\<close>

definition seat_dealer :: "nat \<Rightarrow> room \<Rightarrow> room" where
  "seat_dealer dealer_pick r =
     (let dealer = (case last_loser_id r of
                      None \<Rightarrow> dealer_pick
                    | Some l \<Rightarrow> if loser_present r then index_of (player_ids r) l else dealer_pick)
      in r\<lparr>dealer_index := dealer,
           current_player_index := (dealer + 1) mod length (player_ids r)\<rparr>)"

text \<open>
  Lines 741-782: the effect of the first card on the seat to move. The result is the
  room, \<open>forced_draw_player_id\<close>, \<open>forced_draw_count\<close> (the constant 1 or 2 of the source,
  whatever was drawn) and \<open>deck_was_shuffled\<close>.
\<close>

definition first_card_effect ::
  "(card list \<Rightarrow> card list) \<Rightarrow> string \<Rightarrow> card \<Rightarrow> room \<Rightarrow> room \<times> string option \<times> nat \<times> bool" where
  "first_card_effect shuffle suit_pick first_card r =
     (let n = length (player_ids r);
          target = player_ids r ! current_player_index r;
          skipped = (current_player_index r + 1) mod n
      in if rank first_card = ''6'' then
           (case forced_draw_one shuffle target (r, 0, False) of
              (r1, cnt, sh) \<Rightarrow> (r1\<lparr>current_player_index := skipped\<rparr>, Some target, 1, sh))
         else if rank first_card = ''7'' then
           (case forced_draw_one shuffle target (forced_draw_one shuffle target (r, 0, False)) of
              (r1, cnt, sh) \<Rightarrow> (r1\<lparr>current_player_index := skipped\<rparr>, Some target, 2, sh))
         else if rank first_card = ''8'' \<and> deck_size r = 52 then
           (r\<lparr>waiting_for_eight := True, eight_draw_used := False\<rparr>, None, 0, False)
         else if rank first_card = ''A'' then
           (r\<lparr>current_player_index := skipped\<rparr>, None, 0, False)
         else if rank first_card = ''Q'' then
           (r\<lparr>chosen_suit := Some suit_pick\<rparr>, None, 0, False)
         else (r, None, 0, False))"

text \<open>
  The whole step. A \<open>pop()\<close> on an empty deck raises IndexError; with no seat at all
  and no loser to seat as dealer, \<open>randint(0, -1)\<close> raises ValueError.
\<close>

definition start_game_room ::
  "(nat \<Rightarrow> string) \<Rightarrow> (card list \<Rightarrow> card list) \<Rightarrow> nat \<Rightarrow> string \<Rightarrow> room \<Rightarrow> room_outcome" where
  "start_game_room uuid4 shuffle dealer_pick suit_pick r0 =
     (case deal_round uuid4 shuffle r0 of
        (r2, ok) \<Rightarrow>
          if \<not> ok \<or> deck r2 = [] then Crashed r2 IndexError
          else
            (let first_card = last (deck r2);
                 r3 = lay_first_card r2
             in if \<not> loser_present r3 \<and> length (player_ids r3) = 0 then Crashed r3 ValueError
                else
                  (case first_card_effect shuffle suit_pick first_card (seat_dealer dealer_pick r3) of
                     (r5, forced_id, forced_count, deck_was_shuffled) \<Rightarrow>
                       Applied r5
                         (game_started_events first_card forced_id forced_count r5
                          @ (if deck_was_shuffled then deck_shuffled_events r5 else [])))))"

definition start_game ::
  "(nat \<Rightarrow> string) \<Rightarrow> (card list \<Rightarrow> card list) \<Rightarrow> nat \<Rightarrow> string \<Rightarrow> string \<Rightarrow> server \<Rightarrow> outcome" where
  "start_game uuid4 shuffle dealer_pick suit_pick rid s =
     (case map_of (rooms s) rid of
        None \<Rightarrow> returned s []
      | Some r \<Rightarrow>
          (case start_game_room uuid4 shuffle dealer_pick suit_pick r of
             Applied r1 evs \<Rightarrow>
               (case broadcast_rooms (store_room rid r1 s) of
                  (s2, listing) \<Rightarrow> returned s2 (evs @ listing))
           | Crashed r1 e \<Rightarrow> \<lparr>new_state = store_room rid r1 s, sent = [], raised = Some e\<rparr>
           | Refused r1 evs \<Rightarrow> returned (store_room rid r1 s) []
           | Round_won r1 \<Rightarrow> returned (store_room rid r1 s) []))"

section \<open>Runs of a started room\<close>

text \<open>What \<open>random.shuffle\<close> guarantees: the same cards, in some order.\<close>

definition is_shuffle :: "(card list \<Rightarrow> card list) \<Rightarrow> bool" where
  "is_shuffle f = (\<forall>xs. mset (f xs) = mset xs)"

definition hand_total :: "(string \<times> player) list \<Rightarrow> nat" where
  "hand_total ps = sum_list (map (\<lambda>kp. length (hand (snd kp))) ps)"

definition card_total :: "room \<Rightarrow> nat" where
  "card_total r = length (deck r) + length (discard_pile r) + hand_total (players r)"

text \<open>
  The states a started room goes through: \<open>start_game\<close> on a room whose deck size is
  one of the two the server lets a creator choose, then any accepted play, draw or
  skip of any seat, each with its own outcome of the random shuffle.
\<close>

inductive reachable :: "room \<Rightarrow> bool" where
  started: "\<lbrakk>deck_size r0 = 36 \<or> deck_size r0 = 52; is_shuffle sh;
             dealer_pick < length (players r0);
             start_game_room uuid4 sh dealer_pick suit_pick r0 = Applied r evs\<rbrakk>
            \<Longrightarrow> reachable r"
| played: "\<lbrakk>reachable r; is_shuffle sh; play_card sh has_ws pid data r = Applied r1 evs\<rbrakk>
            \<Longrightarrow> reachable r1"
| drew: "\<lbrakk>reachable r; is_shuffle sh; draw_card sh has_ws pid r = Applied r1 evs\<rbrakk>
            \<Longrightarrow> reachable r1"
| skipped: "\<lbrakk>reachable r; skip_turn has_ws pid r = Applied r1 evs\<rbrakk> \<Longrightarrow> reachable r1"

section \<open>Rooms for the worked examples\<close>

definition mk_card :: "string \<Rightarrow> string \<Rightarrow> card" where
  "mk_card r s = \<lparr>suit = s, rank = r, card_id = r @ s\<rparr>"

definition mk_player :: "string \<Rightarrow> card list \<Rightarrow> int \<Rightarrow> player" where
  "mk_player pid h sc =
     \<lparr>player_id = pid, nickname = pid, hand = h, ready = True, score = sc, is_bot = False\<rparr>"

definition mk_room :: "(string \<times> player) list \<Rightarrow> card list \<Rightarrow> card list \<Rightarrow> room" where
  "mk_room ps d dp =
     \<lparr>room_id = ''r'', players = ps, deck = d, discard_pile = dp, current_player_index = 0,
      dealer_index = 0, game_started = True, chosen_suit = None, waiting_for_eight = False,
      card_drawn_this_turn = False, eight_draw_used = False, last_loser_id = None,
      deck_size = 36, creator_id = Some ''a'', is_private = False, eight_drawn_cards = None\<rparr>"

definition mk_server :: "room \<Rightarrow> server" where
  "mk_server r =
     \<lparr>rooms = [(''r'', r)], clients = [(1, ''a''), (2, ''b'')],
      player_rooms = [(''a'', ''r''), (''b'', ''r'')], db_rooms = {''r''}\<rparr>"

section \<open>The scoring rules as the specification words them\<close>

text \<open>
  Section 4.1: numeral ranks score their face value, J 2, K 4, A 11, Q 20 and the
  Queen of spades 40. No rule gives any other rank string a value; it scores nothing.
\<close>

definition spec_card_value :: "card \<Rightarrow> int" where
  "spec_card_value c =
     (if rank c = ''Q'' then (if suit c = ''spades'' then 40 else 20)
      else if rank c = ''J'' then 2 else if rank c = ''K'' then 4 else if rank c = ''A'' then 11
      else if rank c = ''10'' then 10 else if rank c = ''9'' then 9 else if rank c = ''8'' then 8
      else if rank c = ''7'' then 7 else if rank c = ''6'' then 6 else if rank c = ''5'' then 5
      else if rank c = ''4'' then 4 else if rank c = ''3'' then 3 else if rank c = ''2'' then 2
      else 0)"

text \<open>
  Section 4.6: a seat that did not win gains the value of its hand; the winner's score
  changes by -40 when the last card discarded is the Queen of spades, by -20 for any
  other Queen, and by 0 otherwise.
\<close>

definition spec_round_change :: "room \<Rightarrow> string \<Rightarrow> string \<times> player \<Rightarrow> int" where
  "spec_round_change r winner_id kp =
     (if fst kp \<noteq> winner_id then sum_list (map spec_card_value (hand (snd kp)))
      else (case top_card_opt r of
              None \<Rightarrow> 0
            | Some c \<Rightarrow> if rank c = ''Q'' then (if suit c = ''spades'' then - 40 else - 20) else 0))"

text \<open>A round that seat a has just won with the Queen of spades.\<close>

definition room_won_with_queen :: room where
  "room_won_with_queen =
     mk_room [(''a'', mk_player ''a'' [] 0),
              (''b'', mk_player ''b'' [mk_card ''K'' ''hearts'', mk_card ''7'' ''clubs''] 10)]
             [mk_card ''9'' ''clubs''] [mk_card ''6'' ''spades'', mk_card ''Q'' ''spades'']"

text \<open>A lobby room, and a room in which seat a has drawn and may skip.\<close>

definition lobby_room :: room where
  "lobby_room =
     (mk_room [(''a'', mk_player ''a'' [] 0), (''b'', mk_player ''b'' [] 0)] [] [])
       \<lparr>game_started := False\<rparr>"

definition room_after_draw :: room where
  "room_after_draw =
     (mk_room [(''a'', mk_player ''a'' [mk_card ''9'' ''hearts''] 0),
               (''b'', mk_player ''b'' [mk_card ''K'' ''clubs''] 0)]
              [mk_card ''7'' ''diamonds''] [mk_card ''10'' ''spades''])
       \<lparr>card_drawn_this_turn := True\<rparr>"

text \<open>An 8-chain in which seat a has drawn the King of clubs.\<close>

definition room_in_chain :: room where
  "room_in_chain =
     (mk_room [(''a'', mk_player ''a'' [mk_card ''9'' ''hearts'', mk_card ''K'' ''clubs''] 0),
               (''b'', mk_player ''b'' [mk_card ''K'' ''spades''] 0)]
              [mk_card ''7'' ''diamonds''] [mk_card ''8'' ''spades''])
       \<lparr>waiting_for_eight := True, eight_draw_used := True,
        eight_drawn_cards := Some {''Kclubs''}, deck_size := 52\<rparr>"

text \<open>A room with nothing left to draw: the deck is empty and one card lies on the table.\<close>

definition exhausted_room :: room where
  "exhausted_room =
     mk_room [(''a'', mk_player ''a'' [mk_card ''9'' ''hearts''] 0),
              (''bot_1'', (mk_player ''bot_1'' [mk_card ''K'' ''clubs''] 0)\<lparr>is_bot := True\<rparr>)]
             [] [mk_card ''10'' ''spades'']"

text \<open>Seat a holds a single 6 that matches the table; one card is left in the deck.\<close>

definition room_last_six :: room where
  "room_last_six =
     mk_room [(''a'', mk_player ''a'' [mk_card ''6'' ''hearts''] 0),
              (''b'', mk_player ''b'' [mk_card ''K'' ''clubs''] 0)]
             [mk_card ''9'' ''clubs''] [mk_card ''6'' ''spades'']"

definition play_six :: play_data where
  "play_six = \<lparr>data_card_id = Some ''6hearts'', data_chosen_suit = None\<rparr>"

section \<open>Legality as the specification words it\<close>

text \<open>A play is accepted when the handler goes on to discard the card.\<close>

definition accepted :: "room_outcome \<Rightarrow> bool" where
  "accepted out = (case out of Applied _ _ \<Rightarrow> True | Round_won _ \<Rightarrow> True | _ \<Rightarrow> False)"

text \<open>
  Section 4.2: under an 8-chain a 2, or a card drawn during the chain; else any Queen;
  else, with a chosen suit, that suit or the rank of the top card; else the suit or
  the rank of the top card.
\<close>

definition spec_legal :: "room \<Rightarrow> card \<Rightarrow> bool" where
  "spec_legal r c =
     (if waiting_for_eight r then
        (rank c = ''2'' \<or> card_id c \<in> (case eight_drawn_cards r of None \<Rightarrow> {} | Some S \<Rightarrow> S))
      else if rank c = ''Q'' then True
      else if truthy (chosen_suit r) then
        (Some (suit c) = chosen_suit r \<or> rank c = rank (last (discard_pile r)))
      else (suit c = suit (last (discard_pile r)) \<or> rank c = rank (last (discard_pile r))))"

section \<open>The score rules as the specification words them\<close>

text \<open>
  "The remaining seat with the lowest score": the seat named is not among the
  eliminated and no seat that stays has a lower score; no seat is named only when
  no seat stays.
\<close>

definition lowest_remaining :: "string list \<Rightarrow> (string \<times> player) list \<Rightarrow> string option \<Rightarrow> bool" where
  "lowest_remaining kick ps win =
     (case win of
        None \<Rightarrow> list_all (\<lambda>(k, p). k \<in> set kick) ps
      | Some w \<Rightarrow>
          w \<notin> set kick \<and>
          list_ex (\<lambda>(k, p). k = w \<and> list_all (\<lambda>(k1, p1). k1 \<in> set kick \<or> score p \<le> score p1) ps) ps)"

text \<open>The lobby state of a seat that stays: hand cleared, bots ready, humans not.\<close>

definition back_in_lobby :: "player \<Rightarrow> player" where
  "back_in_lobby p = p\<lparr>hand := [], ready := is_bot p\<rparr>"

text \<open>A round b has lost badly: its hand takes it from 95 to over 101.\<close>

definition room_b_over :: room where
  "room_b_over =
     mk_room [(''a'', mk_player ''a'' [] 90),
              (''b'', mk_player ''b'' [mk_card ''K'' ''hearts'', mk_card ''7'' ''clubs''] 95)]
             [mk_card ''9'' ''clubs''] [mk_card ''6'' ''spades'', mk_card ''9'' ''spades'']"

text \<open>
  "Removals leave fewer than 2 seats": some seat is marked, and fewer than two seats
  are left once the marked ones are taken away.
\<close>

definition closing :: "room \<Rightarrow> string \<Rightarrow> bool" where
  "closing r winner_id =
     (players_to_kick (tallied r winner_id) \<noteq> []
      \<and> length (players r) < length (players_to_kick (tallied r winner_id)) + 2)"

text \<open>The room as it goes back to the lobby when it is not closed.\<close>

definition staying_room :: "room \<Rightarrow> string \<Rightarrow> room" where
  "staying_room r winner_id =
     reset_room (without_kicked (players_to_kick (tallied r winner_id)) (after_score_rules r winner_id))"

text \<open>A round of three in which b lands on exactly 101.\<close>

definition room_b_at_101 :: room where
  "room_b_at_101 =
     mk_room [(''a'', mk_player ''a'' [] 90),
              (''b'', mk_player ''b'' [mk_card ''6'' ''diamonds''] 95),
              (''c'', mk_player ''c'' [mk_card ''K'' ''diamonds''] 10)]
             [mk_card ''9'' ''clubs''] [mk_card ''6'' ''spades'', mk_card ''9'' ''spades'']"

text \<open>A stand-in for \<open>uuid.uuid4\<close> in the examples: the k-th id is k letters long.\<close>

definition example_uuid4 :: "nat \<Rightarrow> string" where
  "example_uuid4 k = replicate k CHR ''u''"

text \<open>
  An open 8-chain: seat a must answer the 8 of spades, and the deck gives, from the top,
  the 3 of hearts, the King of diamonds and the 2 of hearts.
\<close>

definition room_chain_open :: room where
  "room_chain_open =
     (mk_room [(''a'', mk_player ''a'' [mk_card ''9'' ''hearts''] 0),
               (''b'', mk_player ''b'' [mk_card ''K'' ''spades''] 0)]
              [mk_card ''2'' ''hearts'', mk_card ''K'' ''diamonds'', mk_card ''3'' ''hearts'']
              [mk_card ''8'' ''spades''])
       \<lparr>waiting_for_eight := True, deck_size := 52\<rparr>"

text \<open>The fields the loop of the 8-chain draw leaves alone.\<close>

definition loop_flags :: "room \<Rightarrow> bool \<times> bool \<times> string set option \<times> nat \<times> string list" where
  "loop_flags r = (waiting_for_eight r, eight_draw_used r, eight_drawn_cards r,
                   current_player_index r, player_ids r)"

section \<open>What an event shows of the hands\<close>

text \<open>
  "A seat-targeted event carries that seat's own hand, and opponents only as hand
  counts": the \<open>hand\<close> of the message is the hand of the seat it is sent to, its
  \<open>players\<close> are the public views of the seats, and a \<open>game_ended\<close> message lists no
  cards of any seat but the one it is sent to.
\<close>

definition own_view :: "room \<Rightarrow> string \<Rightarrow> event \<Rightarrow> bool" where
  "own_view r k e =
     (case e of
        Game_started m \<Rightarrow> gs_hand m = hand_of r k \<and> gs_players m = map (to_dict \<circ> snd) (players r)
      | Card_played m \<Rightarrow> cp_hand m = hand_of r k \<and> cp_players m = map (to_dict \<circ> snd) (players r)
      | Card_drawn m \<Rightarrow> cd_hand m = hand_of r k \<and> cd_players m = map (to_dict \<circ> snd) (players r)
      | Turn_skipped m \<Rightarrow> ts_hand m = hand_of r k \<and> ts_players m = map (to_dict \<circ> snd) (players r)
      | Game_ended m \<Rightarrow> list_all (\<lambda>res. res_player_id res = k \<or> res_hand res = []) (ge_results m)
      | _ \<Rightarrow> True)"

text \<open>The events of an accepted play: one \<open>card_played\<close> per seat, then the shuffle notices.\<close>

definition played_shape :: "string \<Rightarrow> room_outcome \<Rightarrow> bool" where
  "played_shape pid out = (case out of
      Applied r1 evs \<Rightarrow> (\<exists>c fid fc b. evs = card_played_events pid c fid fc r1
                                  @ (if b then deck_shuffled_events r1 else []))
    | _ \<Rightarrow> True)"

section \<open>The table and the turn pointer\<close>

text \<open>A card lies on the table and the turn pointer names a seat of the room.\<close>

definition table_ok :: "room \<Rightarrow> bool" where
  "table_ok r = (discard_pile r \<noteq> [] \<and> current_player_index r < length (player_ids r))"

section \<open>Theorems\<close>

subsection \<open>The two definitions of can_play_card\<close>

text \<open>
  C10. The later four-parameter \<open>can_play_card\<close> and the earlier three-parameter
  definition it shadows return the same boolean for every card, top card and chosen
  suit whenever \<open>waiting_for_eight\<close> is false.
\<close>

theorem can_play_card_shadowing_agrees:
  "\<not> waiting \<Longrightarrow> can_play_card c top_card chosen waiting = can_play_card_first c top_card chosen"
  by (simp add: can_play_card_def can_play_card_first_def)

theorem can_play_card_shadowing_agrees_witness:
  "\<not> False \<and>
   can_play_card \<lparr>suit = ''hearts'', rank = ''9'', card_id = ''c1''\<rparr>
                 \<lparr>suit = ''clubs'', rank = ''K'', card_id = ''c2''\<rparr> (Some ''hearts'') False
   = can_play_card_first \<lparr>suit = ''hearts'', rank = ''9'', card_id = ''c1''\<rparr>
                 \<lparr>suit = ''clubs'', rank = ''K'', card_id = ''c2''\<rparr> (Some ''hearts'')
   \<and> can_play_card_first \<lparr>suit = ''hearts'', rank = ''9'', card_id = ''c1''\<rparr>
                 \<lparr>suit = ''clubs'', rank = ''K'', card_id = ''c2''\<rparr> (Some ''hearts'')"
  using can_play_card_shadowing_agrees
        [of False "\<lparr>suit = ''hearts'', rank = ''9'', card_id = ''c1''\<rparr>"
            "\<lparr>suit = ''clubs'', rank = ''K'', card_id = ''c2''\<rparr>" "Some ''hearts''"]
  by (simp add: can_play_card_first_def truthy_def)


subsection \<open>Valuation and the round tally\<close>

lemmas ex_defs = mk_room_def mk_player_def mk_card_def mk_server_def

lemma card_points_spec: "calculate_card_points c = spec_card_value c"
  by (simp add: calculate_card_points_def spec_card_value_def numeral_ranks_def low_ranks_def
                py_int_def)

lemma hand_points_spec: "calculate_hand_points h = sum_list (map spec_card_value h)"
proof -
  have "calculate_card_points = spec_card_value"
    by (rule ext) (rule card_points_spec)
  then show ?thesis by (simp add: calculate_hand_points_def)
qed

lemma tally_player_spec:
  "tally_player w (queen_bonus_of r) (k, p) =
     ((k, p\<lparr>score := score p + spec_round_change r w (k, p)\<rparr>),
      \<lparr>res_player_id = k, res_nickname = nickname p, res_points = spec_round_change r w (k, p),
       res_total_score = score p + spec_round_change r w (k, p),
       res_hand = (if k \<noteq> w then hand p else []),
       res_queen_bonus = (if k \<noteq> w then None else Some (spec_round_change r w (k, p)))\<rparr>)"
  by (simp add: tally_player_def spec_round_change_def queen_bonus_of_def hand_points_spec Let_def)

lemma fst_tally_key [simp]: "fst (fst (tally_player w qb kp)) = fst kp"
  by (cases kp) (simp add: tally_player_def Let_def)

lemma fst_reset_key [simp]: "fst (reset_at_101 kp) = fst kp"
  by (cases kp) (simp add: reset_at_101_def)

lemma ids_tallied [simp]: "map fst (tallied r w) = map fst (players r)"
  by (simp add: tallied_def tally_def comp_def)

lemma length_tallied [simp]: "length (tallied r w) = length (players r)"
  by (simp add: tallied_def tally_def)

lemma fst_comp_reset [simp]: "fst \<circ> reset_at_101 = fst"
  by (rule ext) simp

lemma ids_reset [simp]: "map fst (map reset_at_101 ps) = map fst ps"
  by simp

lemma after_score_rules_simps [simp]:
  "players (after_score_rules r w) = map reset_at_101 (tallied r w)"
  "player_ids (after_score_rules r w) = player_ids r"
  "top_card_opt (after_score_rules r w) = top_card_opt r"
  by (simp_all add: after_score_rules_def player_ids_def top_card_opt_def)

lemma game_end_sent:
  assumes "map_of (rooms s) rid = Some r"
  shows "\<exists>rest. sent (handle_game_end rid w s) =
           map (\<lambda>k. (To_player k, Game_ended
                  \<lparr>ge_winner_id = w, ge_winning_card = top_card_opt r,
                   ge_results = round_results r w\<rparr>))
               (player_ids r) @ rest"
  using assms
  by (simp add: handle_game_end_def Let_def returned_def split: prod.splits)

subsection \<open>Association lists as dicts\<close>

lemma update_entry_same: "map_of d k = Some v \<Longrightarrow> update_entry k (\<lambda>_. v) d = d"
  by (induction d) (auto split: if_splits)

lemma store_room_same: "map_of (rooms s) rid = Some r \<Longrightarrow> store_room rid r s = s"
  by (simp add: store_room_def update_entry_same)

lemma map_fst_update_entry [simp]: "map fst (update_entry k f d) = map fst d"
  by (induction d) auto

lemma map_of_update_entry:
  "map_of (update_entry k f d) k' = (if k' = k then map_option f (map_of d k) else map_of d k')"
  by (induction d) auto

lemma map_of_nth_key: "i < length d \<Longrightarrow> \<exists>v. map_of d (map fst d ! i) = Some v"
proof (induction d arbitrary: i)
  case Nil
  then show ?case by simp
next
  case (Cons a d)
  then show ?case by (cases i) auto
qed

subsection \<open>Skipping a turn\<close>

text \<open>
  C9, as the code has it. For a caller the server resolves to a seat of a room:
  a room that is not started returns silently, with no event and no change; in a started
  room the skip goes through exactly when the caller is the seat at
  \<open>current_player_index\<close>, no 8-chain is pending and a card was drawn this turn, and then
  the turn pointer advances by one seat and \<open>card_drawn_this_turn\<close> is reset; otherwise
  nothing changes and the one error event is replied when the request came over a
  socket, none for a bot call.
\<close>

theorem skip_turn_rule:
  assumes "resolve_caller w bot_id room_arg s = Some (pid, rid)"
      and "map_of (rooms s) rid = Some r"
  shows "handle_skip_turn w bot_id room_arg s =
     (if \<not> game_started r then returned s []
      else if current_player_index r \<ge> length (player_ids r)
        then \<lparr>new_state = s, sent = [], raised = Some IndexError\<rparr>
      else if player_ids r ! current_player_index r = pid \<and> \<not> waiting_for_eight r
              \<and> card_drawn_this_turn r
        then returned
               (store_room rid
                  (r\<lparr>current_player_index := (current_player_index r + 1) mod length (player_ids r),
                     card_drawn_this_turn := False\<rparr>) s)
               (turn_skipped_events pid
                  (r\<lparr>current_player_index := (current_player_index r + 1) mod length (player_ids r),
                     card_drawn_this_turn := False\<rparr>))
      else returned s
             (if w = None then []
              else [(Reply, Error (if player_ids r ! current_player_index r \<noteq> pid then Not_your_turn
                                   else if waiting_for_eight r then Cannot_skip_on_eight
                                   else Draw_a_card_first))]))"
  using assms
  by (auto simp: handle_skip_turn_def started_room_def finish_def skip_turn_def refuse_def
                 store_room_same returned_def Let_def)

theorem skip_turn_rule_witness:
  "resolve_caller (Some 1) None None (mk_server room_after_draw) = Some (''a'', ''r'')
   \<and> map_of (rooms (mk_server room_after_draw)) ''r'' = Some room_after_draw
   \<and> map_of (rooms (new_state (handle_skip_turn (Some 1) None None (mk_server room_after_draw)))) ''r''
       = Some (room_after_draw\<lparr>current_player_index := 1, card_drawn_this_turn := False\<rparr>)"
  using skip_turn_rule [of "Some 1" None None "mk_server room_after_draw" "''a''" "''r''"
                           room_after_draw]
  by (simp add: room_after_draw_def ex_defs resolve_caller_def lookup_caller_def player_ids_def
                returned_def store_room_def)

text \<open>
  The sentence of the specification fails: seat a of a room that is not started asks to skip
  over its socket, the precondition "started room" fails, and no error event is replied.
\<close>

theorem skip_turn_silent_counterexample:
  "resolve_caller (Some 1) None None (mk_server lobby_room) = Some (''a'', ''r'')
   \<and> map_of (rooms (mk_server lobby_room)) ''r'' = Some lobby_room
   \<and> \<not> game_started lobby_room
   \<and> sent (handle_skip_turn (Some 1) None None (mk_server lobby_room)) = []"
  by (simp add: lobby_room_def ex_defs resolve_caller_def lookup_caller_def handle_skip_turn_def
                started_room_def returned_def)

subsection \<open>Legality of a play\<close>

lemma play_effects_accepted: "accepted (play_effects sh pid data c r)"
  by (simp add: play_effects_def accepted_def Let_def split: prod.splits)

lemma refuse_not_accepted [simp]:
  "\<not> accepted (refuse w r m)" "\<not> accepted (refuse_unguarded w r m)"
  by (simp_all add: refuse_def refuse_unguarded_def accepted_def)

text \<open>
  C3. When it is the caller's turn, the request names a card of the caller's hand and a
  card lies on the table, \<open>handle_play_card\<close> accepts the card exactly when the rule of
  section 4.2 holds.
\<close>

theorem play_card_legality:
  assumes "current_player_index r < length (player_ids r)"
      and "player_ids r ! current_player_index r = pid"
      and "find (\<lambda>x. Some (card_id x) = data_card_id data) (hand_of r pid) = Some c"
      and "discard_pile r \<noteq> []"
  shows "accepted (play_card sh has_ws pid data r) \<longleftrightarrow> spec_legal r c"
proof -
  obtain p where p: "map_of (players r) pid = Some p"
    using map_of_nth_key [of "current_player_index r" "players r"] assms(1,2)
    by (auto simp: player_ids_def)
  with assms(3) have f: "find (\<lambda>x. Some (card_id x) = data_card_id data) (hand p) = Some c"
    by (simp add: hand_of_def)
  show ?thesis
    using assms(1,2,4) p f
    by (auto simp: play_card_def spec_legal_def can_play_card_def play_effects_accepted Let_def
             split: option.splits)
qed

theorem play_card_legality_witness:
  "current_player_index room_in_chain < length (player_ids room_in_chain)
   \<and> player_ids room_in_chain ! current_player_index room_in_chain = ''a''
   \<and> find (\<lambda>x. Some (card_id x) = Some ''Kclubs'') (hand_of room_in_chain ''a'')
       = Some (mk_card ''K'' ''clubs'')
   \<and> discard_pile room_in_chain \<noteq> []
   \<and> spec_legal room_in_chain (mk_card ''K'' ''clubs'')
   \<and> accepted (play_card (\<lambda>xs. xs) True ''a''
                  \<lparr>data_card_id = Some ''Kclubs'', data_chosen_suit = None\<rparr> room_in_chain)"
  using play_card_legality
          [of room_in_chain "''a''" "\<lparr>data_card_id = Some ''Kclubs'', data_chosen_suit = None\<rparr>"
              "mk_card ''K'' ''clubs''" "\<lambda>xs. xs" True]
  by (simp add: room_in_chain_def ex_defs player_ids_def hand_of_def spec_legal_def)

subsection \<open>Replenishing the deck\<close>

lemma is_shuffleD: "is_shuffle sh \<Longrightarrow> mset (sh xs) = mset xs"
  by (simp add: is_shuffle_def)

lemma is_shuffle_length: "is_shuffle sh \<Longrightarrow> length (sh xs) = length xs"
  using is_shuffleD [of sh xs] by (metis size_mset)

text \<open>
  Deck replenishment as the specification states it. With an empty deck and more than
  one discarded card, \<open>replenish_deck\<close> makes the deck a permutation of all discarded
  cards but the top one and leaves that top card alone on the table; with at most one
  discarded card it changes nothing; and then a voluntary draw requested over a socket
  on an empty deck is refused with the error event, the room unchanged.
\<close>

lemma replenish_deck_rule:
  assumes "is_shuffle sh"
  shows "(deck r = [] \<and> length (discard_pile r) > 1 \<longrightarrow>
            replenish_deck sh r
              = (True, r\<lparr>deck := sh (butlast (discard_pile r)), discard_pile := [last (discard_pile r)]\<rparr>)
            \<and> mset (sh (butlast (discard_pile r))) = mset (butlast (discard_pile r)))
       \<and> (length (discard_pile r) \<le> 1 \<longrightarrow> replenish_deck sh r = (False, r))
       \<and> (deck r = [] \<and> length (discard_pile r) \<le> 1
            \<and> current_player_index r < length (player_ids r)
            \<and> player_ids r ! current_player_index r = pid
            \<and> \<not> waiting_for_eight r \<and> \<not> card_drawn_this_turn r \<longrightarrow>
              draw_card sh True pid r = Refused r [Error Deck_is_empty])"
  using assms
  by (auto simp: replenish_deck_def Let_def is_shuffleD draw_card_def refuse_unguarded_def)

lemma replenish_deck_rule_example:
  "is_shuffle rev
   \<and> replenish_deck rev
        (exhausted_room\<lparr>discard_pile := [mk_card ''6'' ''hearts'', mk_card ''7'' ''hearts'',
                                         mk_card ''10'' ''spades'']\<rparr>)
       = (True, exhausted_room\<lparr>deck := [mk_card ''7'' ''hearts'', mk_card ''6'' ''hearts''],
                               discard_pile := [mk_card ''10'' ''spades'']\<rparr>)
   \<and> replenish_deck rev exhausted_room = (False, exhausted_room)
   \<and> draw_card rev True ''a'' exhausted_room = Refused exhausted_room [Error Deck_is_empty]"
  using replenish_deck_rule
          [of rev "exhausted_room\<lparr>discard_pile := [mk_card ''6'' ''hearts'', mk_card ''7'' ''hearts'',
                                                   mk_card ''10'' ''spades'']\<rparr>" "''a''"]
        replenish_deck_rule [of rev exhausted_room "''a''"]
  by (simp add: is_shuffle_def exhausted_room_def ex_defs player_ids_def)

text \<open>
  The same draw called for a bot. Lines 1145-1147 send the error with no \<open>if ws\<close> guard,
  so with \<open>ws = None\<close> the call of \<open>ws.send\<close> raises AttributeError: whoever the seat on
  turn is, a voluntary draw on an exhausted deck is an error event over a socket and an
  exception without one. The room is left as it was in both cases.
\<close>

lemma draw_on_exhausted_deck:
  assumes "deck r = []" and "length (discard_pile r) \<le> 1"
      and "current_player_index r < length (player_ids r)"
      and "player_ids r ! current_player_index r = pid"
      and "\<not> waiting_for_eight r" and "\<not> card_drawn_this_turn r"
  shows "draw_card sh has_ws pid r
           = (if has_ws then Refused r [Error Deck_is_empty] else Crashed r AttributeError)"
  using assms
  by (simp add: draw_card_def replenish_deck_def refuse_unguarded_def)

text \<open>
  C8. The replenishment itself is as the specification states it
  (\<open>replenish_deck_rule\<close>), and so is the refusal of a draw asked over a socket. The
  refusal fails for a bot: bot\_1 is on turn and its King of clubs cannot be played on
  the 10 of spades, so \<open>make_bot_move\<close> (line 688) calls \<open>handle_draw_card\<close> with
  \<open>ws = None\<close>; the deck is empty with one card on the table, and line 1146 calls
  \<open>ws.send\<close> on \<open>None\<close>. No error event is sent and AttributeError leaves the handler,
  where the refusals of lines 1031 and 1041 are guarded by \<open>if ws\<close> and return.
\<close>

theorem bot_draw_on_empty_deck_raises:
  "deck exhausted_room = [] \<and> length (discard_pile exhausted_room) \<le> 1
   \<and> is_bot (the (map_of (players exhausted_room) ''bot_1''))
   \<and> \<not> can_play_card (mk_card ''K'' ''clubs'') (mk_card ''10'' ''spades'') None False
   \<and> handle_draw_card (\<lambda>xs. xs) None (Some ''bot_1'') (Some ''r'')
        (mk_server (exhausted_room\<lparr>current_player_index := 1\<rparr>))
      = \<lparr>new_state = mk_server (exhausted_room\<lparr>current_player_index := 1\<rparr>), sent = [],
         raised = Some AttributeError\<rparr>"
  by (simp add: exhausted_room_def ex_defs handle_draw_card_def resolve_caller_def started_room_def
                finish_def draw_card_def player_ids_def replenish_deck_def refuse_unguarded_def
                store_room_def can_play_card_def truthy_def)

subsection \<open>A play that empties the hand\<close>

lemma play_effects_won:
  assumes "play_effects sh pid data c r = Round_won r1"
  shows "hand_of r1 pid = [] \<and>
         r1 = (if rank c = ''6'' then fst (forced_draw_one sh (next_seat r) (discarded pid c r, 0, False))
               else if rank c = ''7'' then
                 fst (forced_draw_one sh (next_seat r)
                        (forced_draw_one sh (next_seat r) (discarded pid c r, 0, False)))
               else discarded pid c r)"
proof -
  have "current_player_index (discarded pid c r) = current_player_index r"
    by (simp add: discarded_def Let_def)
  with assms show ?thesis
    by (auto simp: play_effects_def Let_def next_seat_def split: prod.splits if_splits)
qed

lemma play_card_won:
  assumes won: "play_card sh has_ws pid data r = Round_won r1"
      and found: "find (\<lambda>x. Some (card_id x) = data_card_id data) (hand_of r pid) = Some c"
  shows "play_effects sh pid data c (if waiting_for_eight r then chain_resolved r else r) = Round_won r1"
  using assms
  by (auto simp: play_card_def hand_of_def refuse_def refuse_unguarded_def Let_def
           split: option.splits if_splits)

lemma forced_draw_one_frame:
  assumes "forced_draw_one sh t (r, n, b) = (r1, n1, b1)"
  shows "current_player_index r1 = current_player_index r \<and> waiting_for_eight r1 = waiting_for_eight r
       \<and> chosen_suit r1 = chosen_suit r \<and> card_drawn_this_turn r1 = card_drawn_this_turn r"
  using assms
  by (auto simp: forced_draw_one_def replenish_deck_def draw_to_def Let_def split: if_splits)

lemma discarded_frame:
  "current_player_index (discarded pid c r) = current_player_index r"
  "waiting_for_eight (discarded pid c r) = waiting_for_eight r"
  "card_drawn_this_turn (discarded pid c r) = card_drawn_this_turn r"
  "chosen_suit (discarded pid c r) = (if rank c = ''Q'' then chosen_suit r else None)"
  "deck (discarded pid c r) = deck r"
  "discard_pile (discarded pid c r) = discard_pile r @ [c]"
  by (simp_all add: discarded_def Let_def)

lemma hand_of_discarded_other: "k \<noteq> pid \<Longrightarrow> hand_of (discarded pid c r) k = hand_of r k"
  by (simp add: discarded_def Let_def hand_of_def map_of_update_entry)

lemma next_seat_other:
  assumes "distinct (player_ids r)" and "2 \<le> length (player_ids r)"
      and "current_player_index r < length (player_ids r)"
  shows "next_seat r \<noteq> player_ids r ! current_player_index r"
proof -
  let ?n = "length (player_ids r)"
  let ?i = "current_player_index r"
  have ne: "(?i + 1) mod ?n \<noteq> ?i"
    using assms(2,3) by (cases "?i + 1 = ?n") auto
  have "0 < ?n" using assms(2) by arith
  then have lt: "(?i + 1) mod ?n < ?n" by (rule mod_less_divisor)
  from nth_eq_iff_index_eq [OF assms(1) lt assms(3)] ne show ?thesis
    by (simp add: next_seat_def)
qed

lemma hand_of_forced_draw_other:
  assumes "forced_draw_one sh t (r, n, b) = (r1, n1, b1)" and "t \<noteq> k"
  shows "hand_of r1 k = hand_of r k"
  using assms
  by (auto simp: forced_draw_one_def replenish_deck_def draw_to_def Let_def hand_of_def
                 map_of_update_entry split: if_splits)

lemma hand_of_discarded_self:
  "map_of (players r) pid = Some p \<Longrightarrow> hand_of (discarded pid c r) pid = remove1 c (hand p)"
  by (simp add: discarded_def Let_def hand_of_def map_of_update_entry)

text \<open>The win check of line 937: with the caller's hand empty after the forced draw, the round is won.\<close>

lemma play_effects_wins:
  assumes "hand_of R pid = []"
      and "R = (if rank c = ''6'' then fst (forced_draw_one sh (next_seat r) (discarded pid c r, 0, False))
                else if rank c = ''7'' then
                  fst (forced_draw_one sh (next_seat r)
                         (forced_draw_one sh (next_seat r) (discarded pid c r, 0, False)))
                else discarded pid c r)"
  shows "play_effects sh pid data c r = Round_won R"
proof -
  obtain x n1 b1 where f1: "forced_draw_one sh (next_seat r) (discarded pid c r, 0, False) = (x, n1, b1)"
    by (cases "forced_draw_one sh (next_seat r) (discarded pid c r, 0, False)") auto
  obtain y n2 b2 where f2: "forced_draw_one sh (next_seat r) (x, n1, b1) = (y, n2, b2)"
    by (cases "forced_draw_one sh (next_seat r) (x, n1, b1)") auto
  have t: "player_ids r ! ((current_player_index (discarded pid c r) + 1) mod length (player_ids r))
             = next_seat r"
    by (simp add: next_seat_def discarded_frame)
  show ?thesis
  proof (cases "rank c = ''6''")
    case True
    with assms f1 have "R = x" "hand_of x pid = []" by simp_all
    with True f1 show ?thesis
      unfolding play_effects_def Let_def t by simp
  next
    case six: False
    show ?thesis
    proof (cases "rank c = ''7''")
      case True
      with assms f1 f2 have "R = y" "hand_of y pid = []" by simp_all
      with True f1 f2 show ?thesis
        unfolding play_effects_def Let_def t by simp
    next
      case False
      with six assms have "R = discarded pid c r" "hand_of (discarded pid c r) pid = []"
        by simp_all
      with six False show ?thesis
        unfolding play_effects_def Let_def t by simp
    qed
  qed
qed

text \<open>Lines 849-893 let a legal card of the seat on turn through to the effects.\<close>

lemma play_card_legal:
  assumes "current_player_index r < length (player_ids r)"
      and "player_ids r ! current_player_index r = pid"
      and "map_of (players r) pid = Some p"
      and "find (\<lambda>x. Some (card_id x) = data_card_id data) (hand p) = Some c"
      and "discard_pile r \<noteq> []"
      and "spec_legal r c"
  shows "play_card sh has_ws pid data r
           = play_effects sh pid data c (if waiting_for_eight r then chain_resolved r else r)"
  using assms
  by (auto simp: play_card_def spec_legal_def can_play_card_def Let_def split: option.splits)

lemma winning_play_frame:
  assumes won: "play_card sh (w \<noteq> None) pid data r = Round_won r1"
      and found: "find (\<lambda>x. Some (card_id x) = data_card_id data) (hand_of r pid) = Some c"
  shows "hand_of r1 pid = []
       \<and> r1 = (let base = discarded pid c (if waiting_for_eight r then chain_resolved r else r)
               in if rank c = ''6'' then fst (forced_draw_one sh (next_seat r) (base, 0, False))
                  else if rank c = ''7'' then
                    fst (forced_draw_one sh (next_seat r)
                           (forced_draw_one sh (next_seat r) (base, 0, False)))
                  else base)
       \<and> current_player_index r1 = current_player_index r
       \<and> \<not> waiting_for_eight r1
       \<and> card_drawn_this_turn r1 = card_drawn_this_turn r
       \<and> chosen_suit r1 = (if rank c = ''Q'' then chosen_suit r else None)
       \<and> (rank c \<noteq> ''6'' \<and> rank c \<noteq> ''7'' \<longrightarrow>
            deck r1 = deck r \<and> discard_pile r1 = discard_pile r @ [c]
            \<and> (\<forall>k. k \<noteq> pid \<longrightarrow> hand_of r1 k = hand_of r k))
       \<and> (resolve_caller w bot_id room_arg s = Some (pid, rid) \<and> started_room rid s = Some r \<longrightarrow>
            handle_play_card sh w data bot_id room_arg s
              = handle_game_end rid pid (store_room rid r1 s))"
proof -
  let ?r0 = "if waiting_for_eight r then chain_resolved r else r"
  let ?b = "discarded pid c ?r0"
  have r0: "current_player_index ?r0 = current_player_index r" "\<not> waiting_for_eight ?r0"
    "card_drawn_this_turn ?r0 = card_drawn_this_turn r" "chosen_suit ?r0 = chosen_suit r"
    "deck ?r0 = deck r" "discard_pile ?r0 = discard_pile r" "players ?r0 = players r"
    "next_seat ?r0 = next_seat r"
    by (simp_all add: chain_resolved_def next_seat_def player_ids_def)
  have hands: "hand_of ?b k = hand_of r k" if "k \<noteq> pid" for k
    using that by (simp add: hand_of_discarded_other) (simp add: hand_of_def chain_resolved_def)
  have both: "hand_of r1 pid = [] \<and>
     r1 = (if rank c = ''6'' then fst (forced_draw_one sh (next_seat r) (?b, 0, False))
               else if rank c = ''7'' then
                 fst (forced_draw_one sh (next_seat r) (forced_draw_one sh (next_seat r) (?b, 0, False)))
               else ?b)"
    using play_effects_won [OF play_card_won [OF won found]] unfolding r0(8) .
  then have e: "hand_of r1 pid = []" by (rule conjunct1)
  from both have r1: "r1 = (if rank c = ''6'' then fst (forced_draw_one sh (next_seat r) (?b, 0, False))
               else if rank c = ''7'' then
                 fst (forced_draw_one sh (next_seat r) (forced_draw_one sh (next_seat r) (?b, 0, False)))
               else ?b)" by (rule conjunct2)
  obtain x n1 b1 where f1: "forced_draw_one sh (next_seat r) (?b, 0, False) = (x, n1, b1)"
    by (cases "forced_draw_one sh (next_seat r) (?b, 0, False)") auto
  obtain y n2 b2 where f2: "forced_draw_one sh (next_seat r) (x, n1, b1) = (y, n2, b2)"
    by (cases "forced_draw_one sh (next_seat r) (x, n1, b1)") auto
  note fr1 = forced_draw_one_frame [OF f1] and fr2 = forced_draw_one_frame [OF f2]
  have frame: "current_player_index r1 = current_player_index r \<and> \<not> waiting_for_eight r1
       \<and> card_drawn_this_turn r1 = card_drawn_this_turn r
       \<and> chosen_suit r1 = (if rank c = ''Q'' then chosen_suit r else None)"
    using r1 f1 f2 fr1 fr2 r0 by (simp add: discarded_frame split: if_splits)
  have plain: "rank c \<noteq> ''6'' \<and> rank c \<noteq> ''7'' \<longrightarrow>
            deck r1 = deck r \<and> discard_pile r1 = discard_pile r @ [c]
            \<and> (\<forall>k. k \<noteq> pid \<longrightarrow> hand_of r1 k = hand_of r k)"
    using r1 r0 hands by (simp add: discarded_frame)
  have ends: "resolve_caller w bot_id room_arg s = Some (pid, rid) \<and> started_room rid s = Some r \<longrightarrow>
            handle_play_card sh w data bot_id room_arg s
              = handle_game_end rid pid (store_room rid r1 s)"
    using won by (simp add: handle_play_card_def finish_def)
  from e r1 frame plain ends show ?thesis by (simp add: Let_def)
qed

text \<open>
  C1, as the code has it. In a room of two or more seats (\<open>start_game\<close> is only called
  with at least two, lines 545 and 581), when the seat on turn plays a legal card that
  is the last of its hand, the handler hands the room to
  \<open>handle_game_end\<close> at once, with the turn pointer where it was, no 8-chain open and the
  suit of the request not stored: a winning A, 8 or Q has no effect, and for any card
  but a 6 or 7 the deck and the other hands are untouched. A winning 6 or 7 is
  different: its forced draw (one round of replenish-and-draw for a 6, two for a 7) has
  already been applied to the next seat.
\<close>

theorem winning_play:
  assumes turn: "current_player_index r < length (player_ids r)"
                "player_ids r ! current_player_index r = pid"
      and seats: "distinct (player_ids r)" "2 \<le> length (player_ids r)"
      and found: "find (\<lambda>x. Some (card_id x) = data_card_id data) (hand_of r pid) = Some c"
      and table: "discard_pile r \<noteq> []"
      and legal: "spec_legal r c"
      and empties: "remove1 c (hand_of r pid) = []"
  shows "let r1 = (let base = discarded pid c (if waiting_for_eight r then chain_resolved r else r)
                   in if rank c = ''6'' then fst (forced_draw_one sh (next_seat r) (base, 0, False))
                      else if rank c = ''7'' then
                        fst (forced_draw_one sh (next_seat r)
                               (forced_draw_one sh (next_seat r) (base, 0, False)))
                      else base)
         in play_card sh (w \<noteq> None) pid data r = Round_won r1
          \<and> hand_of r1 pid = []
          \<and> current_player_index r1 = current_player_index r
          \<and> \<not> waiting_for_eight r1
          \<and> card_drawn_this_turn r1 = card_drawn_this_turn r
          \<and> chosen_suit r1 = (if rank c = ''Q'' then chosen_suit r else None)
          \<and> (rank c \<noteq> ''6'' \<and> rank c \<noteq> ''7'' \<longrightarrow>
               deck r1 = deck r \<and> discard_pile r1 = discard_pile r @ [c]
               \<and> (\<forall>k. k \<noteq> pid \<longrightarrow> hand_of r1 k = hand_of r k))
          \<and> (resolve_caller w bot_id room_arg s = Some (pid, rid) \<and> started_room rid s = Some r \<longrightarrow>
               handle_play_card sh w data bot_id room_arg s
                 = handle_game_end rid pid (store_room rid r1 s))"
proof -
  let ?r0 = "if waiting_for_eight r then chain_resolved r else r"
  let ?b = "discarded pid c ?r0"
  let ?R = "if rank c = ''6'' then fst (forced_draw_one sh (next_seat r) (?b, 0, False))
            else if rank c = ''7'' then
              fst (forced_draw_one sh (next_seat r) (forced_draw_one sh (next_seat r) (?b, 0, False)))
            else ?b"
  obtain p where p: "map_of (players r) pid = Some p"
    using map_of_nth_key [of "current_player_index r" "players r"] turn
    by (auto simp: player_ids_def)
  then have hp: "hand_of r pid = hand p" by (simp add: hand_of_def)
  have p0: "map_of (players ?r0) pid = Some p" using p by (simp add: chain_resolved_def)
  have ns: "next_seat ?r0 = next_seat r"
    by (simp add: chain_resolved_def next_seat_def player_ids_def)
  have other: "next_seat r \<noteq> pid"
    using next_seat_other [OF seats turn(1)] turn(2) by simp
  have b: "hand_of ?b pid = []"
    using hand_of_discarded_self [OF p0, of c] empties hp by simp
  obtain x n1 b1 where f1: "forced_draw_one sh (next_seat r) (?b, 0, False) = (x, n1, b1)"
    by (cases "forced_draw_one sh (next_seat r) (?b, 0, False)") auto
  obtain y n2 b2 where f2: "forced_draw_one sh (next_seat r) (x, n1, b1) = (y, n2, b2)"
    by (cases "forced_draw_one sh (next_seat r) (x, n1, b1)") auto
  have hx: "hand_of x pid = []"
    using hand_of_forced_draw_other [OF f1 other] b by simp
  have hy: "hand_of y pid = []"
    using hand_of_forced_draw_other [OF f2 other] hx by simp
  have e: "hand_of ?R pid = []"
    using b hx hy f1 f2 by simp
  have "play_effects sh pid data c ?r0 = Round_won ?R"
    by (rule play_effects_wins [OF e]) (simp add: ns)
  with play_card_legal [OF turn p found [unfolded hp] table legal, of sh "w \<noteq> None"]
  have won: "play_card sh (w \<noteq> None) pid data r = Round_won ?R" by simp
  from winning_play_frame [OF won found, of bot_id room_arg s rid] won show ?thesis
    unfolding Let_def by blast
qed

theorem winning_play_witness:
  "current_player_index room_last_six < length (player_ids room_last_six)
   \<and> player_ids room_last_six ! current_player_index room_last_six = ''a''
   \<and> distinct (player_ids room_last_six) \<and> 2 \<le> length (player_ids room_last_six)
   \<and> find (\<lambda>x. Some (card_id x) = data_card_id play_six) (hand_of room_last_six ''a'')
       = Some (mk_card ''6'' ''hearts'')
   \<and> discard_pile room_last_six \<noteq> []
   \<and> spec_legal room_last_six (mk_card ''6'' ''hearts'')
   \<and> remove1 (mk_card ''6'' ''hearts'') (hand_of room_last_six ''a'') = []
   \<and> play_card (\<lambda>xs. xs) (Some (1::nat) \<noteq> None) ''a'' play_six room_last_six
       = Round_won (room_last_six
           \<lparr>players := [(''a'', mk_player ''a'' [] 0),
                        (''b'', mk_player ''b'' [mk_card ''K'' ''clubs'', mk_card ''9'' ''clubs''] 0)],
            deck := [], discard_pile := [mk_card ''6'' ''spades'', mk_card ''6'' ''hearts'']\<rparr>)"
  using winning_play [where r = room_last_six and pid = "''a''" and data = play_six
                        and c = "mk_card ''6'' ''hearts''" and sh = "\<lambda>xs. xs" and w = "Some 1"]
  by (simp add: room_last_six_def play_six_def ex_defs player_ids_def spec_legal_def truthy_def
        discarded_def forced_draw_one_def replenish_deck_def draw_to_def hand_of_def Let_def
        next_seat_def)

text \<open>
  The sentence of the specification fails for a winning 6: seat a plays its last card, a 6,
  and the round is won with seat b holding the card that was in the deck, and the deck
  empty.
\<close>

theorem winning_six_counterexample:
  "play_card (\<lambda>xs. xs) True ''a'' play_six room_last_six
     = Round_won (room_last_six
         \<lparr>players := [(''a'', mk_player ''a'' [] 0),
                      (''b'', mk_player ''b'' [mk_card ''K'' ''clubs'', mk_card ''9'' ''clubs''] 0)],
          deck := [], discard_pile := [mk_card ''6'' ''spades'', mk_card ''6'' ''hearts'']\<rparr>)
   \<and> hand_of room_last_six ''b'' = [mk_card ''K'' ''clubs'']
   \<and> deck room_last_six = [mk_card ''9'' ''clubs'']"
  by (simp add: room_last_six_def play_six_def ex_defs play_card_def player_ids_def
        can_play_card_def truthy_def play_effects_def discarded_def forced_draw_one_def
        replenish_deck_def draw_to_def hand_of_def Let_def)

subsection \<open>The rule of 101 and the end of a room\<close>

lemma final_winner_inv:
  "case foldl (final_winner_step kick) (None, None) ps of
     (win, m) \<Rightarrow>
       (win = None \<and> m = None \<and> (\<forall>(k, p) \<in> set ps. k \<in> set kick))
       \<or> (\<exists>w p. win = Some w \<and> m = Some (score p) \<and> (w, p) \<in> set ps \<and> w \<notin> set kick
                \<and> (\<forall>(k1, p1) \<in> set ps. k1 \<in> set kick \<or> score p \<le> score p1))"
proof (induction ps rule: rev_induct)
  case Nil
  then show ?case by simp
next
  case (snoc x xs)
  obtain win m where st: "foldl (final_winner_step kick) (None, None) xs = (win, m)"
    by (cases "foldl (final_winner_step kick) (None, None) xs") auto
  obtain k p where x: "x = (k, p)" by (cases x) auto
  from snoc st have inv: "(win = None \<and> m = None \<and> (\<forall>(k, p) \<in> set xs. k \<in> set kick))
       \<or> (\<exists>w p. win = Some w \<and> m = Some (score p) \<and> (w, p) \<in> set xs \<and> w \<notin> set kick
                \<and> (\<forall>(k1, p1) \<in> set xs. k1 \<in> set kick \<or> score p \<le> score p1))"
    by simp
  show ?case
  proof (cases "k \<notin> set kick \<and> (case m of None \<Rightarrow> True | Some v \<Rightarrow> score p < v)")
    case True
    then have "foldl (final_winner_step kick) (None, None) (xs @ [x]) = (Some k, Some (score p))"
      using st x by (simp add: final_winner_step_def)
    moreover have "\<forall>(k1, p1) \<in> set (xs @ [x]). k1 \<in> set kick \<or> score p \<le> score p1"
      using inv True x by (fastforce split: option.splits)
    ultimately show ?thesis using True x by auto
  next
    case False
    then have same: "foldl (final_winner_step kick) (None, None) (xs @ [x]) = (win, m)"
      using st x by (auto simp add: final_winner_step_def)
    from inv show ?thesis
    proof
      assume "win = None \<and> m = None \<and> (\<forall>(k, p) \<in> set xs. k \<in> set kick)"
      with False x show ?thesis unfolding same by auto
    next
      assume "\<exists>w p. win = Some w \<and> m = Some (score p) \<and> (w, p) \<in> set xs \<and> w \<notin> set kick
                \<and> (\<forall>(k1, p1) \<in> set xs. k1 \<in> set kick \<or> score p \<le> score p1)"
      then obtain w q where w: "win = Some w" "m = Some (score q)" "(w, q) \<in> set xs" "w \<notin> set kick"
          "\<forall>(k1, p1) \<in> set xs. k1 \<in> set kick \<or> score q \<le> score p1"
        by blast
      from False w(2) have "k \<in> set kick \<or> score q \<le> score p" by auto
      with w x have "win = Some w \<and> m = Some (score q) \<and> (w, q) \<in> set (xs @ [x]) \<and> w \<notin> set kick
                \<and> (\<forall>(k1, p1) \<in> set (xs @ [x]). k1 \<in> set kick \<or> score q \<le> score p1)"
        by auto
      then show ?thesis unfolding same by blast
    qed
  qed
qed

lemma final_winner_lowest: "lowest_remaining kick ps (final_winner kick ps)"
proof -
  obtain win m where st: "foldl (final_winner_step kick) (None, None) ps = (win, m)"
    by (cases "foldl (final_winner_step kick) (None, None) ps") auto
  with final_winner_inv [where kick = kick and ps = ps] show ?thesis
    by (auto simp: lowest_remaining_def final_winner_def list_all_iff list_ex_iff
             split: option.splits)
qed


lemma map_of_del_key [simp]: "map_of (del_key k d) k = None"
  by (induction d) (auto simp: del_key_def)

lemma map_of_filter_none: "map_of d k = None \<Longrightarrow> map_of (filter P d) k = None"
  by (induction d) (auto split: if_splits)

lemma game_end_closing:
  assumes room: "map_of (rooms s) rid = Some r" and c: "closing r w"
  shows "map_of (rooms (new_state (handle_game_end rid w s))) rid = None"
    and "rid \<notin> db_rooms (new_state (handle_game_end rid w s))"
    and "k \<in> set (player_ids r) \<Longrightarrow>
         (To_player k, Final_winner
            \<lparr>fw_winner_id = final_winner (players_to_kick (tallied r w)) (map reset_at_101 (tallied r w)),
             fw_winner_nickname =
               (case final_winner (players_to_kick (tallied r w)) (map reset_at_101 (tallied r w)) of
                  None \<Rightarrow> []
                | Some x \<Rightarrow> if x \<noteq> [] then nickname_of (after_score_rules r w) x else []),
             fw_kicked_players = map (nickname_of (after_score_rules r w))
                                     (players_to_kick (tallied r w))\<rparr>)
           \<in> set (sent (handle_game_end rid w s))"
  using room c
  by (auto simp: handle_game_end_def Let_def closing_def broadcast_rooms_def
        cleanup_bot_only_rooms_def returned_def map_of_filter_none
        split: prod.splits)

lemma map_of_store_filter:
  "map_of d k = Some v \<Longrightarrow> P (k, v1) \<Longrightarrow> map_of (filter P (update_entry k (\<lambda>_. v1) d)) k = Some v1"
  by (induction d) (auto split: if_splits)

lemma game_end_staying:
  assumes room: "map_of (rooms s) rid = Some r" and c: "\<not> closing r w"
  shows "new_state (handle_game_end rid w s)
          = cleanup_bot_only_rooms
              (store_room rid (staying_room r w)
                 (s\<lparr>player_rooms := filter (\<lambda>(k, _). k \<notin> set (players_to_kick (tallied r w)))
                                           (player_rooms s)\<rparr>))"
  using room c
  by (auto simp: handle_game_end_def Let_def closing_def broadcast_rooms_def returned_def
                 staying_room_def split: prod.splits)

lemma staying_players:
  "players (reset_room (without_kicked kick (after_score_rules r w)))
     = map (\<lambda>(k, p). (k, back_in_lobby p))
           (filter (\<lambda>(k, _). k \<notin> set kick) (map reset_at_101 (tallied r w)))"
  by (simp add: reset_room_def without_kicked_def back_in_lobby_def)

lemma kicked_iff:
  "k \<in> set (players_to_kick ps) \<longleftrightarrow> (\<exists>p. (k, p) \<in> set ps \<and> score p > 101)"
  by (force simp: players_to_kick_def)

lemma distinct_keys_unique:
  "distinct (map fst ps) \<Longrightarrow> (k, p) \<in> set ps \<Longrightarrow> (k, q) \<in> set ps \<Longrightarrow> p = q"
  by (metis eq_key_imp_eq_value)

lemma seat_rules:
  assumes d: "distinct (map fst ps)" and m: "(k, q) \<in> set ps"
  defines "stay \<equiv> map (\<lambda>(k, p). (k, back_in_lobby p))
                      (filter (\<lambda>(k, _). k \<notin> set (players_to_kick ps)) (map reset_at_101 ps))"
  shows "score q = 101 \<longrightarrow> (k, back_in_lobby (q\<lparr>score := 0\<rparr>)) \<in> set stay"
    and "score q > 101 \<longrightarrow> k \<notin> fst ` set stay"
    and "score q < 101 \<longrightarrow> (k, back_in_lobby q) \<in> set stay"
proof -
  have notk: "k \<notin> set (players_to_kick ps)" if "score q \<le> 101"
  proof
    assume "k \<in> set (players_to_kick ps)"
    then obtain p where "(k, p) \<in> set ps" "score p > 101" by (auto simp: kicked_iff)
    with distinct_keys_unique [OF d m] that show False by auto
  qed
  show "score q = 101 \<longrightarrow> (k, back_in_lobby (q\<lparr>score := 0\<rparr>)) \<in> set stay"
  proof
    assume s: "score q = 101"
    then have "reset_at_101 (k, q) = (k, q\<lparr>score := 0\<rparr>)" by (simp add: reset_at_101_def)
    with m notk s have "(k, q\<lparr>score := 0\<rparr>) \<in> set (filter (\<lambda>(k, _). k \<notin> set (players_to_kick ps)) (map reset_at_101 ps))"
      by force
    then show "(k, back_in_lobby (q\<lparr>score := 0\<rparr>)) \<in> set stay"
      unfolding stay_def by force
  qed
  show "score q > 101 \<longrightarrow> k \<notin> fst ` set stay"
  proof
    assume "score q > 101"
    with m have "k \<in> set (players_to_kick ps)" by (auto simp: kicked_iff)
    then show "k \<notin> fst ` set stay"
      unfolding stay_def by (auto simp: reset_at_101_def split: if_splits)
  qed
  show "score q < 101 \<longrightarrow> (k, back_in_lobby q) \<in> set stay"
  proof
    assume s: "score q < 101"
    then have "reset_at_101 (k, q) = (k, q)" by (simp add: reset_at_101_def)
    with m notk s have "(k, q) \<in> set (filter (\<lambda>(k, _). k \<notin> set (players_to_kick ps)) (map reset_at_101 ps))"
      by force
    then show "(k, back_in_lobby q) \<in> set stay"
      unfolding stay_def by force
  qed
qed


lemma staying_room_players:
  "players (staying_room r w)
     = map (\<lambda>(k, p). (k, back_in_lobby p))
           (filter (\<lambda>(k, _). k \<notin> set (players_to_kick (tallied r w))) (map reset_at_101 (tallied r w)))"
  by (simp add: staying_room_def staying_players)

lemma staying_room_in_memory:
  assumes room: "map_of (rooms s) rid = Some r" and c: "\<not> closing r w"
      and b: "\<not> bot_only (staying_room r w)"
  shows "map_of (rooms (new_state (handle_game_end rid w s))) rid = Some (staying_room r w)"
  using room b
  by (simp add: game_end_staying [OF room c] cleanup_bot_only_rooms_def store_room_def
                map_of_store_filter)

text \<open>
  C5. Let seat k have score q once the round is tallied. If seats are marked for
  removal and fewer than two would stay, \<open>handle_game_end\<close> deletes the room from
  \<open>self.rooms\<close> and from the durable store and sends every seat a \<open>final_winner\<close> event
  that names the seat with the lowest score among those that stay. Otherwise the room
  goes back to the lobby (and is kept in memory unless only bots are left in it): a
  seat at exactly 101 is in it with score 0, a seat above 101 is not in it, and a seat
  below 101 keeps its score.
\<close>

theorem score_rules_at_round_end:
  assumes room: "map_of (rooms s) rid = Some r"
      and d: "distinct (player_ids r)"
      and m: "(k, q) \<in> set (tallied r w)"
  shows "if closing r w then
           map_of (rooms (new_state (handle_game_end rid w s))) rid = None
           \<and> rid \<notin> db_rooms (new_state (handle_game_end rid w s))
           \<and> (To_player k, Final_winner
                \<lparr>fw_winner_id = final_winner (players_to_kick (tallied r w)) (map reset_at_101 (tallied r w)),
                 fw_winner_nickname =
                   (case final_winner (players_to_kick (tallied r w)) (map reset_at_101 (tallied r w)) of
                      None \<Rightarrow> []
                    | Some x \<Rightarrow> if x \<noteq> [] then nickname_of (after_score_rules r w) x else []),
                 fw_kicked_players = map (nickname_of (after_score_rules r w))
                                         (players_to_kick (tallied r w))\<rparr>)
               \<in> set (sent (handle_game_end rid w s))
           \<and> lowest_remaining (players_to_kick (tallied r w)) (map reset_at_101 (tallied r w))
                (final_winner (players_to_kick (tallied r w)) (map reset_at_101 (tallied r w)))
         else
           new_state (handle_game_end rid w s)
             = cleanup_bot_only_rooms
                 (store_room rid (staying_room r w)
                    (s\<lparr>player_rooms := filter (\<lambda>(k, _). k \<notin> set (players_to_kick (tallied r w)))
                                              (player_rooms s)\<rparr>))
           \<and> (\<not> bot_only (staying_room r w) \<longrightarrow>
                map_of (rooms (new_state (handle_game_end rid w s))) rid = Some (staying_room r w))
           \<and> \<not> game_started (staying_room r w)
           \<and> (score q = 101 \<longrightarrow> (k, back_in_lobby (q\<lparr>score := 0\<rparr>)) \<in> set (players (staying_room r w)))
           \<and> (score q > 101 \<longrightarrow> k \<notin> set (player_ids (staying_room r w)))
           \<and> (score q < 101 \<longrightarrow> (k, back_in_lobby q) \<in> set (players (staying_room r w)))"
proof (cases "closing r w")
  case True
  from m have "k \<in> set (player_ids r)"
    by (metis ids_tallied image_eqI fst_conv list.set_map player_ids_def)
  with game_end_closing [OF room True] final_winner_lowest True show ?thesis
    by simp
next
  case False
  have dt: "distinct (map fst (tallied r w))"
    using d by (simp add: player_ids_def)
  have st: "players (staying_room r w)
     = map (\<lambda>(k, p). (k, back_in_lobby p))
           (filter (\<lambda>(k, _). k \<notin> set (players_to_kick (tallied r w))) (map reset_at_101 (tallied r w)))"
    by (rule staying_room_players)
  have ids: "set (player_ids (staying_room r w)) = fst ` set (players (staying_room r w))"
    by (simp add: player_ids_def)
  have a: "score q = 101 \<longrightarrow> (k, back_in_lobby (q\<lparr>score := 0\<rparr>)) \<in> set (players (staying_room r w))"
    unfolding st by (rule seat_rules(1) [OF dt m])
  have b: "score q > 101 \<longrightarrow> k \<notin> set (player_ids (staying_room r w))"
    unfolding ids st by (rule seat_rules(2) [OF dt m])
  have c: "score q < 101 \<longrightarrow> (k, back_in_lobby q) \<in> set (players (staying_room r w))"
    unfolding st by (rule seat_rules(3) [OF dt m])
  have g: "\<not> game_started (staying_room r w)"
    by (simp add: staying_room_def reset_room_def)
  have mem: "\<not> bot_only (staying_room r w) \<longrightarrow>
                map_of (rooms (new_state (handle_game_end rid w s))) rid = Some (staying_room r w)"
    using staying_room_in_memory [OF room False] by blast
  show ?thesis
    unfolding if_not_P [OF False]
    using game_end_staying [OF room False] mem g a b c by blast
qed


lemmas tally_defs = tallied_def tally_def tally_player_def queen_bonus_of_def top_card_opt_def
  calculate_hand_points_def calculate_card_points_def numeral_ranks_def low_ranks_def py_int_def
  players_to_kick_def reset_at_101_def

theorem score_rules_at_round_end_witness:
  "map_of (rooms (mk_server room_b_over)) ''r'' = Some room_b_over
   \<and> distinct (player_ids room_b_over)
   \<and> (''b'', mk_player ''b'' [mk_card ''K'' ''hearts'', mk_card ''7'' ''clubs''] 106)
        \<in> set (tallied room_b_over ''a'')
   \<and> closing room_b_over ''a''
   \<and> map_of (rooms (new_state (handle_game_end ''r'' ''a'' (mk_server room_b_over)))) ''r'' = None
   \<and> ''r'' \<notin> db_rooms (new_state (handle_game_end ''r'' ''a'' (mk_server room_b_over)))
   \<and> final_winner (players_to_kick (tallied room_b_over ''a''))
        (map reset_at_101 (tallied room_b_over ''a'')) = Some ''a''
   \<and> map_of (rooms (mk_server room_b_at_101)) ''r'' = Some room_b_at_101
   \<and> distinct (player_ids room_b_at_101)
   \<and> (''b'', mk_player ''b'' [mk_card ''6'' ''diamonds''] 101) \<in> set (tallied room_b_at_101 ''a'')
   \<and> \<not> closing room_b_at_101 ''a''
   \<and> (''b'', (mk_player ''b'' [] 0)\<lparr>ready := False\<rparr>)
        \<in> set (players (staying_room room_b_at_101 ''a''))"
  using score_rules_at_round_end
          [of "mk_server room_b_over" "''r''" room_b_over "''b''"
              "mk_player ''b'' [mk_card ''K'' ''hearts'', mk_card ''7'' ''clubs''] 106" "''a''"]
        score_rules_at_round_end
          [of "mk_server room_b_at_101" "''r''" room_b_at_101 "''b''"
              "mk_player ''b'' [mk_card ''6'' ''diamonds''] 101" "''a''"]
  by (simp add: room_b_over_def room_b_at_101_def ex_defs player_ids_def tally_defs closing_def
                final_winner_def final_winner_step_def back_in_lobby_def)

subsection \<open>The scores after a round\<close>

lemma tallied_spec:
  "tallied r w = map (\<lambda>(i, q). (i, q\<lparr>score := score q + spec_round_change r w (i, q)\<rparr>)) (players r)"
  by (auto simp: tallied_def tally_def tally_player_spec)

text \<open>
  C6. The code's valuation is the specification's table. At round end the tally gives
  every seat its old score plus the change the specification names: the value of the
  remaining hand for a seat that did not win, and for the winner -40, -20 or 0 by the
  card on top of the discard pile. Every seat is sent a \<open>game_ended\<close> event whose
  results list, seat by seat, that change as \<open>points\<close> and the sum as \<open>total_score\<close>.
  Unless the room is closed, the room \<open>handle_game_end\<close> leaves in the server holds the
  seats with these new scores, after the rule of 101 and back in the lobby; a seat whose
  new score is below 101 is in it with exactly that score. The witness is a winner at
  score 0 who ends at -40.
\<close>

theorem round_end_tally:
  assumes room: "map_of (rooms s) rid = Some r" and seat: "(k, p) \<in> set (players r)"
  shows "calculate_card_points c = spec_card_value c
       \<and> fst (tally_player w (queen_bonus_of r) (k, p))
             = (k, p\<lparr>score := score p + spec_round_change r w (k, p)\<rparr>)
       \<and> tallied r w
             = map (\<lambda>(i, q). (i, q\<lparr>score := score q + spec_round_change r w (i, q)\<rparr>)) (players r)
       \<and> (To_player k, Game_ended
             \<lparr>ge_winner_id = w, ge_winning_card = top_card_opt r,
              ge_results = map (\<lambda>(i, q).
                 \<lparr>res_player_id = i, res_nickname = nickname q,
                  res_points = spec_round_change r w (i, q),
                  res_total_score = score q + spec_round_change r w (i, q),
                  res_hand = (if i \<noteq> w then hand q else []),
                  res_queen_bonus = (if i \<noteq> w then None else Some (spec_round_change r w (i, q)))\<rparr>)
                (players r)\<rparr>) \<in> set (sent (handle_game_end rid w s))
       \<and> (\<not> closing r w \<longrightarrow>
            new_state (handle_game_end rid w s)
              = cleanup_bot_only_rooms
                  (store_room rid (staying_room r w)
                     (s\<lparr>player_rooms := filter (\<lambda>(i, _). i \<notin> set (players_to_kick (tallied r w)))
                                               (player_rooms s)\<rparr>))
            \<and> players (staying_room r w)
                = map (\<lambda>(i, q). (i, back_in_lobby q))
                      (filter (\<lambda>(i, _). i \<notin> set (players_to_kick (tallied r w)))
                              (map reset_at_101 (tallied r w))))
       \<and> (distinct (player_ids r) \<and> \<not> closing r w \<and> \<not> bot_only (staying_room r w)
            \<and> score p + spec_round_change r w (k, p) < 101 \<longrightarrow>
            map_of (rooms (new_state (handle_game_end rid w s))) rid = Some (staying_room r w)
            \<and> (k, back_in_lobby (p\<lparr>score := score p + spec_round_change r w (k, p)\<rparr>))
                \<in> set (players (staying_room r w)))"
proof -
  let ?q = "p\<lparr>score := score p + spec_round_change r w (k, p)\<rparr>"
  have results: "round_results r w
      = map (\<lambda>(i, q).
                 \<lparr>res_player_id = i, res_nickname = nickname q,
                  res_points = spec_round_change r w (i, q),
                  res_total_score = score q + spec_round_change r w (i, q),
                  res_hand = (if i \<noteq> w then hand q else []),
                  res_queen_bonus = (if i \<noteq> w then None else Some (spec_round_change r w (i, q)))\<rparr>)
                (players r)"
    by (auto simp: round_results_def tally_def tally_player_spec)
  have "k \<in> set (player_ids r)"
    using seat by (force simp: player_ids_def)
  with game_end_sent [OF room, of w] results
  have first: "calculate_card_points c = spec_card_value c
       \<and> fst (tally_player w (queen_bonus_of r) (k, p)) = (k, ?q)
       \<and> (To_player k, Game_ended
             \<lparr>ge_winner_id = w, ge_winning_card = top_card_opt r,
              ge_results = map (\<lambda>(i, q).
                 \<lparr>res_player_id = i, res_nickname = nickname q,
                  res_points = spec_round_change r w (i, q),
                  res_total_score = score q + spec_round_change r w (i, q),
                  res_hand = (if i \<noteq> w then hand q else []),
                  res_queen_bonus = (if i \<noteq> w then None else Some (spec_round_change r w (i, q)))\<rparr>)
                (players r)\<rparr>) \<in> set (sent (handle_game_end rid w s))"
    by (auto simp: card_points_spec tally_player_spec)
  have m: "(k, ?q) \<in> set (tallied r w)"
    using seat unfolding tallied_spec by force
  have st: "players (staying_room r w)
     = map (\<lambda>(i, q). (i, back_in_lobby q))
           (filter (\<lambda>(i, _). i \<notin> set (players_to_kick (tallied r w))) (map reset_at_101 (tallied r w)))"
    by (rule staying_room_players)
  have state: "\<not> closing r w \<longrightarrow>
            new_state (handle_game_end rid w s)
              = cleanup_bot_only_rooms
                  (store_room rid (staying_room r w)
                     (s\<lparr>player_rooms := filter (\<lambda>(i, _). i \<notin> set (players_to_kick (tallied r w)))
                                               (player_rooms s)\<rparr>))"
    using game_end_staying [OF room] by blast
  have stays: "distinct (player_ids r) \<and> \<not> closing r w \<and> \<not> bot_only (staying_room r w)
            \<and> score p + spec_round_change r w (k, p) < 101 \<longrightarrow>
            map_of (rooms (new_state (handle_game_end rid w s))) rid = Some (staying_room r w)
            \<and> (k, back_in_lobby ?q) \<in> set (players (staying_room r w))"
  proof (intro impI, elim conjE)
    assume d: "distinct (player_ids r)" and c: "\<not> closing r w"
       and b: "\<not> bot_only (staying_room r w)" and l: "score p + spec_round_change r w (k, p) < 101"
    have dt: "distinct (map fst (tallied r w))"
      using d by (simp add: player_ids_def)
    from l have "score ?q < 101" by simp
    with seat_rules(3) [OF dt m] have "(k, back_in_lobby ?q) \<in> set (players (staying_room r w))"
      unfolding st by blast
    with staying_room_in_memory [OF room c b]
    show "map_of (rooms (new_state (handle_game_end rid w s))) rid = Some (staying_room r w)
            \<and> (k, back_in_lobby ?q) \<in> set (players (staying_room r w))"
      by simp
  qed
  from first tallied_spec [of r w] state st stays show ?thesis by blast
qed

theorem round_end_tally_witness:
  "map_of (rooms (mk_server room_won_with_queen)) ''r'' = Some room_won_with_queen
   \<and> (''a'', mk_player ''a'' [] 0) \<in> set (players room_won_with_queen)
   \<and> calculate_card_points (mk_card ''Q'' ''spades'') = 40
   \<and> spec_round_change room_won_with_queen ''a''
        (''b'', mk_player ''b'' [mk_card ''K'' ''hearts'', mk_card ''7'' ''clubs''] 10) = 11
   \<and> tallied room_won_with_queen ''a''
       = [(''a'', mk_player ''a'' [] (- 40)),
          (''b'', mk_player ''b'' [mk_card ''K'' ''hearts'', mk_card ''7'' ''clubs''] 21)]
   \<and> distinct (player_ids room_won_with_queen)
   \<and> \<not> closing room_won_with_queen ''a''
   \<and> \<not> bot_only (staying_room room_won_with_queen ''a'')
   \<and> map_of (rooms (new_state (handle_game_end ''r'' ''a'' (mk_server room_won_with_queen)))) ''r''
       = Some (staying_room room_won_with_queen ''a'')
   \<and> players (staying_room room_won_with_queen ''a'')
       = [(''a'', (mk_player ''a'' [] (- 40))\<lparr>ready := False\<rparr>),
          (''b'', (mk_player ''b'' [] 21)\<lparr>ready := False\<rparr>)]"
  using round_end_tally [of "mk_server room_won_with_queen" "''r''" room_won_with_queen "''a''"
                            "mk_player ''a'' [] 0" "mk_card ''Q'' ''spades''" "''a''"]
  by (simp add: room_won_with_queen_def ex_defs spec_round_change_def spec_card_value_def
                top_card_opt_def player_ids_def closing_def players_to_kick_def reset_at_101_def
                bot_only_def back_in_lobby_def tallied_spec staying_room_players
                cleanup_bot_only_rooms_def store_room_def)

subsection \<open>Conservation of cards\<close>

lemma hand_total_update:
  "map_of ps k = Some p \<Longrightarrow>
   hand_total (update_entry k f ps) + length (hand p) = hand_total ps + length (hand (f p))"
  by (induction ps) (auto simp: hand_total_def split: if_splits)

lemma key_present: "k \<in> set (player_ids r) \<Longrightarrow> \<exists>p. map_of (players r) k = Some p"
  by (metis player_ids_def map_of_eq_None_iff not_Some_eq set_map)

lemma replenish_total:
  assumes "is_shuffle sh" and "replenish_deck sh r = (b, r1)"
  shows "card_total r1 = card_total r"
proof (cases "length (deck r) = 0 \<and> length (discard_pile r) > 1")
  case True
  then have "discard_pile r \<noteq> []" by auto
  with True assms show ?thesis
    by (auto simp: replenish_deck_def Let_def card_total_def is_shuffle_length)
next
  case False
  with assms show ?thesis by (auto simp: replenish_deck_def)
qed

lemma replenish_frame:
  assumes "replenish_deck sh r = (b, r1)"
  shows "players r1 = players r" "deck_size r1 = deck_size r" "player_ids r1 = player_ids r"
        "current_player_index r1 = current_player_index r" "game_started r1 = game_started r"
        "waiting_for_eight r1 = waiting_for_eight r" "eight_draw_used r1 = eight_draw_used r"
        "eight_drawn_cards r1 = eight_drawn_cards r" "card_drawn_this_turn r1 = card_drawn_this_turn r"
        "chosen_suit r1 = chosen_suit r"
  using assms by (auto simp: replenish_deck_def Let_def player_ids_def split: if_splits)

lemma draw_to_total:
  assumes "deck r \<noteq> []" and "t \<in> set (player_ids r)"
  shows "card_total (draw_to t r) = card_total r"
proof -
  from key_present [OF assms(2)] obtain p where p: "map_of (players r) t = Some p" by blast
  from hand_total_update [OF p, of "\<lambda>p. p\<lparr>hand := hand p @ [last (deck r)]\<rparr>"] assms(1)
  show ?thesis
    by (cases "deck r" rule: rev_cases) (auto simp: draw_to_def card_total_def)
qed

lemma draw_to_frame:
  "player_ids (draw_to t r) = player_ids r" "deck_size (draw_to t r) = deck_size r"
  "discard_pile (draw_to t r) = discard_pile r" "deck (draw_to t r) = butlast (deck r)"
  "current_player_index (draw_to t r) = current_player_index r"
  "waiting_for_eight (draw_to t r) = waiting_for_eight r"
  "eight_draw_used (draw_to t r) = eight_draw_used r"
  "eight_drawn_cards (draw_to t r) = eight_drawn_cards r"
  "game_started (draw_to t r) = game_started r"
  by (simp_all add: draw_to_def player_ids_def)

lemma forced_draw_one_total:
  assumes "is_shuffle sh" and "t \<in> set (player_ids r)"
      and "forced_draw_one sh t (r, n, b) = (r1, n1, b1)"
  shows "card_total r1 = card_total r \<and> player_ids r1 = player_ids r \<and> deck_size r1 = deck_size r
         \<and> game_started r1 = game_started r"
proof -
  obtain s r0 where rp: "replenish_deck sh r = (s, r0)" by (cases "replenish_deck sh r") auto
  note fr = replenish_frame [OF rp] and tot = replenish_total [OF assms(1) rp]
  from assms(2) fr have t: "t \<in> set (player_ids r0)" by simp
  show ?thesis
  proof (cases "deck r0 = []")
    case True
    with assms(3) rp fr tot show ?thesis by (simp add: forced_draw_one_def)
  next
    case False
    with assms(3) rp have "r1 = draw_to t r0" by (simp add: forced_draw_one_def)
    with draw_to_total [OF False t] fr tot show ?thesis by (simp add: draw_to_frame)
  qed
qed

lemma discarded_total:
  assumes "map_of (players r) pid = Some p" and "c \<in> set (hand p)"
  shows "card_total (discarded pid c r) = card_total r"
proof -
  from assms(2) have "length (remove1 c (hand p)) + 1 = length (hand p)"
    by (simp add: length_remove1) (cases "hand p", auto)
  with hand_total_update [OF assms(1), of "\<lambda>p. p\<lparr>hand := remove1 c (hand p)\<rparr>"]
  show ?thesis by (simp add: discarded_def Let_def card_total_def)
qed

lemma discarded_ids [simp]:
  "player_ids (discarded pid c r) = player_ids r" "deck_size (discarded pid c r) = deck_size r"
  "game_started (discarded pid c r) = game_started r"
  by (simp_all add: discarded_def Let_def player_ids_def)


lemma card_total_flags [simp]:
  "card_total (r\<lparr>current_player_index := i\<rparr>) = card_total r"
  "card_total (r\<lparr>card_drawn_this_turn := b\<rparr>) = card_total r"
  "card_total (r\<lparr>waiting_for_eight := b\<rparr>) = card_total r"
  "card_total (r\<lparr>eight_draw_used := b\<rparr>) = card_total r"
  "card_total (r\<lparr>chosen_suit := cs\<rparr>) = card_total r"
  "card_total (r\<lparr>eight_drawn_cards := e\<rparr>) = card_total r"
  "card_total (r\<lparr>dealer_index := i\<rparr>) = card_total r"
  by (simp_all add: card_total_def)

lemma player_ids_flags [simp]:
  "player_ids (r\<lparr>current_player_index := i\<rparr>) = player_ids r"
  "player_ids (r\<lparr>card_drawn_this_turn := b\<rparr>) = player_ids r"
  "player_ids (r\<lparr>waiting_for_eight := b\<rparr>) = player_ids r"
  "player_ids (r\<lparr>eight_draw_used := b\<rparr>) = player_ids r"
  "player_ids (r\<lparr>chosen_suit := cs\<rparr>) = player_ids r"
  "player_ids (r\<lparr>eight_drawn_cards := e\<rparr>) = player_ids r"
  "player_ids (r\<lparr>dealer_index := i\<rparr>) = player_ids r"
  "player_ids (r\<lparr>deck := d\<rparr>) = player_ids r"
  "player_ids (r\<lparr>discard_pile := d\<rparr>) = player_ids r"
  by (simp_all add: player_ids_def)

lemma play_effects_total:
  assumes sh: "is_shuffle sh" and p: "map_of (players r) pid = Some p" and c: "c \<in> set (hand p)"
      and n: "player_ids r \<noteq> []"
  shows "card_total (room_of (play_effects sh pid data c r)) = card_total r
       \<and> player_ids (room_of (play_effects sh pid data c r)) = player_ids r
       \<and> deck_size (room_of (play_effects sh pid data c r)) = deck_size r
       \<and> game_started (room_of (play_effects sh pid data c r)) = game_started r"
proof -
  let ?b = "discarded pid c r"
  let ?t = "player_ids r ! ((current_player_index ?b + 1) mod length (player_ids r))"
  have t: "?t \<in> set (player_ids ?b)" using n by simp
  have b: "card_total ?b = card_total r" by (rule discarded_total [OF p c])
  obtain x n1 b1 where f1: "forced_draw_one sh ?t (?b, 0, False) = (x, n1, b1)"
    by (cases "forced_draw_one sh ?t (?b, 0, False)") auto
  note t1 = forced_draw_one_total [OF sh t f1]
  from t t1 have tx: "?t \<in> set (player_ids x)" by simp
  obtain y n2 b2 where f2: "forced_draw_one sh ?t (x, n1, b1) = (y, n2, b2)"
    by (cases "forced_draw_one sh ?t (x, n1, b1)") auto
  note t2 = forced_draw_one_total [OF sh tx f2]
  show ?thesis
    using b t1 t2 f1 f2
    by (simp add: play_effects_def Let_def split: prod.splits)
qed

lemma find_in_set: "find P xs = Some x \<Longrightarrow> x \<in> set xs"
  by (induction xs) (auto split: if_splits)

lemma play_card_total:
  assumes sh: "is_shuffle sh"
  shows "card_total (room_of (play_card sh w pid data r)) = card_total r
       \<and> player_ids (room_of (play_card sh w pid data r)) = player_ids r
       \<and> deck_size (room_of (play_card sh w pid data r)) = deck_size r
       \<and> game_started (room_of (play_card sh w pid data r)) = game_started r"
proof (cases "accepted (play_card sh w pid data r)")
  case False
  then show ?thesis
    by (auto simp: play_card_def refuse_def refuse_unguarded_def play_effects_accepted Let_def
             split: option.splits if_splits)
next
  case True
  then obtain p c where p: "map_of (players r) pid = Some p"
      and c: "find (\<lambda>c. Some (card_id c) = data_card_id data) (hand p) = Some c"
      and e: "play_card sh w pid data r
                = play_effects sh pid data c (if waiting_for_eight r then chain_resolved r else r)"
      and n: "current_player_index r < length (player_ids r)"
    by (auto simp: play_card_def refuse_def refuse_unguarded_def accepted_def Let_def
             split: option.splits if_splits)
  let ?r0 = "if waiting_for_eight r then chain_resolved r else r"
  have r0: "map_of (players ?r0) pid = Some p" "player_ids ?r0 \<noteq> []"
     "card_total ?r0 = card_total r" "player_ids ?r0 = player_ids r" "deck_size ?r0 = deck_size r"
     "game_started ?r0 = game_started r"
    using p n by (auto simp: chain_resolved_def)
  from play_effects_total [OF sh r0(1) find_in_set [OF c] r0(2), of data] r0(3-6) e
  show ?thesis by simp
qed


lemma eight_draw_loop_total:
  assumes sh: "is_shuffle sh" and pin: "pid \<in> set (player_ids r)"
      and res: "eight_draw_loop sh pid k (r, drawn0, b0) = (r1, drawn1, b1)"
  shows "card_total r1 = card_total r \<and> player_ids r1 = player_ids r \<and> deck_size r1 = deck_size r
         \<and> game_started r1 = game_started r"
  using pin res
proof (induction k arbitrary: r drawn0 b0)
  case 0
  then show ?case by simp
next
  case (Suc k)
  obtain s r0 where rp: "replenish_deck sh r = (s, r0)" by (cases "replenish_deck sh r") auto
  note fr = replenish_frame [OF rp] and tot = replenish_total [OF sh rp]
  show ?case
  proof (cases "deck r0 = [] \<or> discard_pile r0 = []")
    case True
    with Suc.prems(2) rp have "r1 = r0" by (auto split: if_splits)
    with fr tot show ?thesis by simp
  next
    case False
    let ?r2 = "draw_to pid r0"
    from Suc.prems(1) fr have pin0: "pid \<in> set (player_ids r0)" by simp
    from False have d: "deck r0 \<noteq> []" by simp
    have t2: "card_total ?r2 = card_total r" "player_ids ?r2 = player_ids r" "deck_size ?r2 = deck_size r"
        "game_started ?r2 = game_started r"
      using draw_to_total [OF d pin0] fr tot by (simp_all add: draw_to_frame)
    show ?thesis
    proof (cases "qualifies (last (deck r0)) (last (discard_pile ?r2))")
      case True
      with Suc.prems(2) rp False have "r1 = ?r2" by (simp add: Let_def)
      with t2 show ?thesis by simp
    next
      case q: False
      with Suc.prems(2) rp False
      have "eight_draw_loop sh pid k (?r2, drawn0 @ [last (deck r0)], b0 \<or> s) = (r1, drawn1, b1)"
        by (simp add: Let_def)
      from Suc.IH [OF _ this] Suc.prems(1) t2 show ?thesis by simp
    qed
  qed
qed


lemma clear_chain_total [simp]:
  "card_total (clear_chain r) = card_total r" "player_ids (clear_chain r) = player_ids r"
  "deck_size (clear_chain r) = deck_size r" "game_started (clear_chain r) = game_started r"
  by (simp_all add: clear_chain_def)

lemma turn_key: "i < length (player_ids r) \<Longrightarrow> player_ids r ! i \<in> set (player_ids r)"
  by simp

lemma draw_card_total:
  assumes sh: "is_shuffle sh"
  shows "card_total (room_of (draw_card sh w pid r)) = card_total r
       \<and> player_ids (room_of (draw_card sh w pid r)) = player_ids r
       \<and> deck_size (room_of (draw_card sh w pid r)) = deck_size r
       \<and> game_started (room_of (draw_card sh w pid r)) = game_started r"
proof (cases "current_player_index r < length (player_ids r) \<and> player_ids r ! current_player_index r = pid")
  case False
  then show ?thesis by (auto simp: draw_card_def refuse_def)
next
  case True
  then have pin: "pid \<in> set (player_ids r)" using turn_key by blast
  show ?thesis
  proof (cases "waiting_for_eight r")
    case w8: True
    show ?thesis
    proof (cases "eight_draw_used r")
      case True
      with w8 \<open>current_player_index r < length (player_ids r) \<and> player_ids r ! current_player_index r = pid\<close>
      show ?thesis by (simp add: draw_card_def refuse_def)
    next
      case False
      obtain r2 dr b where l: "eight_draw_loop sh pid max_iterations (r\<lparr>eight_draw_used := True\<rparr>, [], False) = (r2, dr, b)"
        by (cases "eight_draw_loop sh pid max_iterations (r\<lparr>eight_draw_used := True\<rparr>, [], False)") auto
      from pin have "pid \<in> set (player_ids (r\<lparr>eight_draw_used := True\<rparr>))" by simp
      from eight_draw_loop_total [OF sh this l]
      have "card_total r2 = card_total r \<and> player_ids r2 = player_ids r \<and> deck_size r2 = deck_size r
            \<and> game_started r2 = game_started r"
        by simp
      with w8 False l True show ?thesis
        by (simp add: draw_card_def Let_def)
    qed
  next
    case False
    obtain s r0 where rp: "replenish_deck sh r = (s, r0)" by (cases "replenish_deck sh r") auto
    note fr = replenish_frame [OF rp] and tot = replenish_total [OF sh rp]
    from pin fr have pin0: "pid \<in> set (player_ids r0)" by simp
    show ?thesis
    proof (cases "deck r0 = []")
      case True
      with False rp fr tot \<open>current_player_index r < length (player_ids r) \<and> player_ids r ! current_player_index r = pid\<close>
      show ?thesis by (auto simp: draw_card_def refuse_unguarded_def)
    next
      case d: False
      from draw_to_total [OF d pin0] fr tot False rp d
        \<open>current_player_index r < length (player_ids r) \<and> player_ids r ! current_player_index r = pid\<close>
      show ?thesis
        by (simp add: draw_card_def refuse_unguarded_def Let_def draw_to_frame)
    qed
  qed
qed

lemma skip_turn_total:
  "card_total (room_of (skip_turn w pid r)) = card_total r
   \<and> player_ids (room_of (skip_turn w pid r)) = player_ids r
   \<and> deck_size (room_of (skip_turn w pid r)) = deck_size r
   \<and> game_started (room_of (skip_turn w pid r)) = game_started r"
  by (simp add: skip_turn_def refuse_def Let_def)


lemma create_deck_length:
  "is_shuffle sh \<Longrightarrow> length (create_deck u sh sz) = (if sz = 36 then 36 else 52)"
  by (simp add: create_deck_def Let_def is_shuffle_length length_concat suits_def ranks_36_def
                low_ranks_def)

lemma deal_spec:
  "deal ps d = (ps1, d1, True) \<Longrightarrow> hand_total ps1 + length d1 = length d \<and> map fst ps1 = map fst ps"
proof (induction ps arbitrary: d ps1 d1)
  case Nil
  then show ?case by (simp add: hand_total_def)
next
  case (Cons a ps)
  obtain k p where a: "a = (k, p)" by (cases a) auto
  from Cons.prems a have len: "\<not> length d < 5" by (auto split: if_splits)
  obtain ps2 d2 ok where rec: "deal ps (take (length d - 5) d) = (ps2, d2, ok)"
    by (cases "deal ps (take (length d - 5) d)") auto
  with Cons.prems a len have eq: "ps1 = (k, p\<lparr>hand := take 5 (rev d)\<rparr>) # ps2" "d1 = d2" "ok"
    by auto
  from Cons.IH [of "take (length d - 5) d" ps2 d2] rec eq(3)
  have "hand_total ps2 + length d2 = length d - 5 \<and> map fst ps2 = map fst ps" by simp
  with eq a len show ?case by (auto simp: hand_total_def)
qed

lemma deal_round_total:
  assumes sh: "is_shuffle sh" and sz: "deck_size r0 = 36 \<or> deck_size r0 = 52"
      and dr: "deal_round u sh r0 = (r2, True)"
  shows "int (length (deck r2) + hand_total (players r2)) = deck_size r0"
    and "player_ids r2 = player_ids r0" and "deck_size r2 = deck_size r0" and "game_started r2"
proof -
  obtain ps d ok where dl: "deal (players r0) (create_deck u sh (deck_size r0)) = (ps, d, ok)"
    by (cases "deal (players r0) (create_deck u sh (deck_size r0))") auto
  with dr have r2: "r2 = r0\<lparr>game_started := True, players := ps, deck := d\<rparr>" and ok: "ok"
    by (simp_all add: deal_round_def)
  from deal_spec [of "players r0" "create_deck u sh (deck_size r0)" ps d] dl ok
  have "hand_total ps + length d = length (create_deck u sh (deck_size r0))"
       "map fst ps = map fst (players r0)"
    by simp_all
  with sz create_deck_length [OF sh, of u "deck_size r0"] r2
  show "int (length (deck r2) + hand_total (players r2)) = deck_size r0"
    and "player_ids r2 = player_ids r0" and "deck_size r2 = deck_size r0" and "game_started r2"
    by (auto simp: player_ids_def)
qed

lemma lay_first_card_total:
  "deck r \<noteq> [] \<Longrightarrow> card_total (lay_first_card r) = length (deck r) + hand_total (players r)"
  "player_ids (lay_first_card r) = player_ids r" "deck_size (lay_first_card r) = deck_size r"
  "game_started (lay_first_card r) = game_started r"
  by (simp_all add: lay_first_card_def card_total_def player_ids_def)

lemma seat_dealer_total [simp]:
  "card_total (seat_dealer dp r) = card_total r" "player_ids (seat_dealer dp r) = player_ids r"
  "deck_size (seat_dealer dp r) = deck_size r" "game_started (seat_dealer dp r) = game_started r"
  by (simp_all add: seat_dealer_def Let_def card_total_def player_ids_def)

lemma seat_dealer_index:
  "player_ids r \<noteq> [] \<Longrightarrow> current_player_index (seat_dealer dp r) < length (player_ids r)"
  by (simp add: seat_dealer_def Let_def)

lemma first_card_effect_total:
  assumes sh: "is_shuffle sh" and i: "current_player_index r < length (player_ids r)"
      and e: "first_card_effect sh sp c r = (r5, fid, fc, b)"
  shows "card_total r5 = card_total r \<and> player_ids r5 = player_ids r \<and> deck_size r5 = deck_size r
         \<and> game_started r5 = game_started r"
proof -
  let ?t = "player_ids r ! current_player_index r"
  from i have tin: "?t \<in> set (player_ids r)" by simp
  obtain x n1 b1 where f1: "forced_draw_one sh ?t (r, 0, False) = (x, n1, b1)"
    by (cases "forced_draw_one sh ?t (r, 0, False)") auto
  note t1 = forced_draw_one_total [OF sh tin f1]
  from tin t1 have tx: "?t \<in> set (player_ids x)" by simp
  obtain y n2 b2 where f2: "forced_draw_one sh ?t (x, n1, b1) = (y, n2, b2)"
    by (cases "forced_draw_one sh ?t (x, n1, b1)") auto
  note t2 = forced_draw_one_total [OF sh tx f2]
  from e f1 f2 t1 t2 show ?thesis
    by (auto simp: first_card_effect_def Let_def split: if_splits)
qed

lemma start_game_total:
  assumes sh: "is_shuffle sh" and sz: "deck_size r0 = 36 \<or> deck_size r0 = 52"
      and st: "start_game_room u sh dp sp r0 = Applied r evs"
  shows "int (card_total r) = deck_size r \<and> deck_size r = deck_size r0 \<and> player_ids r = player_ids r0
         \<and> game_started r"
proof -
  obtain r2 ok where dr: "deal_round u sh r0 = (r2, ok)" by (cases "deal_round u sh r0") auto
  from st dr have ok: "ok" "deck r2 \<noteq> []"
    by (auto simp: start_game_room_def split: if_splits)
  note d = deal_round_total [OF sh sz dr [unfolded \<open>ok\<close> [THEN eqTrueI]]]
  let ?r3 = "lay_first_card r2"
  from st dr ok have nz: "player_ids ?r3 \<noteq> []"
    by (auto simp: start_game_room_def Let_def loser_present_def split: if_splits option.splits)
  obtain r5 fid fc b where e: "first_card_effect sh sp (last (deck r2)) (seat_dealer dp ?r3) = (r5, fid, fc, b)"
    by (cases "first_card_effect sh sp (last (deck r2)) (seat_dealer dp ?r3)") auto
  from st dr ok nz e have r: "r = r5"
    by (auto simp: start_game_room_def Let_def split: if_splits)
  have "current_player_index (seat_dealer dp ?r3) < length (player_ids (seat_dealer dp ?r3))"
    using seat_dealer_index [OF nz] by simp
  from first_card_effect_total [OF sh this e] d lay_first_card_total [of r2] ok(2) r
  show ?thesis by simp
qed


lemma reachable_invariant:
  "reachable r \<Longrightarrow> int (card_total r) = deck_size r \<and> (deck_size r = 36 \<or> deck_size r = 52)
                    \<and> game_started r"
proof (induction rule: reachable.induct)
  case (started r0 sh dealer_pick uuid4 suit_pick r evs)
  from start_game_total [OF started(2) started(1) started(4)] started(1) show ?case by auto
next
  case (played r sh has_ws pid data r1 evs)
  from play_card_total [OF played(2), of has_ws pid data r] played(3,4) show ?case by simp
next
  case (drew r sh has_ws pid r1 evs)
  from draw_card_total [OF drew(2), of has_ws pid r] drew(3,4) show ?case by simp
next
  case (skipped r has_ws pid r1 evs)
  from skip_turn_total [of has_ws pid r] skipped(2,3) show ?case by simp
qed

text \<open>
  C2. In every state a started room reaches, the deck, the discard pile and the hands
  together hold as many cards as the room's deck size, which is 36 or 52. And from any
  room whatever, replenishing the deck, a play, a draw (voluntary or 8-chain) and a skip
  leave that total as it was, whether the handler accepts the action or not.
\<close>

theorem card_conservation:
  "(reachable r \<longrightarrow>
      game_started r \<and> int (card_total r) = deck_size r \<and> (deck_size r = 36 \<or> deck_size r = 52))
   \<and> (is_shuffle sh \<longrightarrow>
        card_total (snd (replenish_deck sh r0)) = card_total r0
        \<and> card_total (room_of (play_card sh w pid data r0)) = card_total r0
        \<and> card_total (room_of (draw_card sh w pid r0)) = card_total r0
        \<and> card_total (room_of (skip_turn w pid r0)) = card_total r0)"
proof -
  have "card_total (snd (replenish_deck sh r0)) = card_total r0" if "is_shuffle sh"
    using replenish_total [OF that, of r0] by (cases "replenish_deck sh r0") auto
  then show ?thesis
    using reachable_invariant [of r] play_card_total [of sh w pid data r0]
          draw_card_total [of sh w pid r0] skip_turn_total [of w pid r0]
    by blast
qed


lemma deal_enough:
  "5 * length ps \<le> length d \<Longrightarrow>
   \<exists>ps1 d1. deal ps d = (ps1, d1, True) \<and> length d1 = length d - 5 * length ps"
proof (induction ps arbitrary: d)
  case Nil
  then show ?case by simp
next
  case (Cons a ps)
  obtain k p where a: "a = (k, p)" by (cases a) auto
  from Cons.prems have "5 * length ps \<le> length (take (length d - 5) d)" by simp
  from Cons.IH [OF this] obtain ps1 d1
    where "deal ps (take (length d - 5) d) = (ps1, d1, True)"
      and "length d1 = length (take (length d - 5) d) - 5 * length ps"
    by blast
  with Cons.prems a show ?case by simp
qed

lemma start_game_applied:
  assumes sh: "is_shuffle sh" and sz: "deck_size r0 = 36 \<or> deck_size r0 = 52"
      and n: "players r0 \<noteq> []" "length (players r0) \<le> 4"
  shows "\<exists>r evs. start_game_room u sh dp sp r0 = Applied r evs"
proof -
  let ?d = "create_deck u sh (deck_size r0)"
  have len: "length ?d = 36 \<or> length ?d = 52"
    using sz create_deck_length [OF sh, of u "deck_size r0"] by auto
  with n(2) have "5 * length (players r0) \<le> length ?d" by auto
  from deal_enough [OF this] obtain ps1 d1 where dl: "deal (players r0) ?d = (ps1, d1, True)"
      and l1: "length d1 = length ?d - 5 * length (players r0)"
    by blast
  from l1 len n(2) have d1: "d1 \<noteq> []" by auto
  from deal_spec [OF dl] n(1) have ps1: "ps1 \<noteq> []" by auto
  obtain r5 fid fc b where e: "first_card_effect sh sp (last d1)
      (seat_dealer dp (lay_first_card (r0\<lparr>game_started := True, players := ps1, deck := d1\<rparr>)))
        = (r5, fid, fc, b)"
    by (cases "first_card_effect sh sp (last d1)
      (seat_dealer dp (lay_first_card (r0\<lparr>game_started := True, players := ps1, deck := d1\<rparr>)))") auto
  have "player_ids (lay_first_card (r0\<lparr>game_started := True, players := ps1, deck := d1\<rparr>)) \<noteq> []"
    using ps1 by (simp add: lay_first_card_def player_ids_def)
  with dl d1 e show ?thesis
    by (simp add: start_game_room_def deal_round_def Let_def)
qed

theorem card_conservation_witness:
  "reachable (room_of (start_game_room example_uuid4 (\<lambda>xs. xs) 0 ''hearts'' lobby_room))
   \<and> int (card_total (room_of (start_game_room example_uuid4 (\<lambda>xs. xs) 0 ''hearts'' lobby_room))) = 36
   \<and> is_shuffle (\<lambda>xs. xs)
   \<and> card_total (room_of (skip_turn True ''a'' room_after_draw)) = card_total room_after_draw"
proof -
  have sh: "is_shuffle (\<lambda>xs. xs)" by (simp add: is_shuffle_def)
  have sz: "deck_size lobby_room = 36 \<or> deck_size lobby_room = 52"
    and n: "players lobby_room \<noteq> []" "length (players lobby_room) \<le> 4"
    and dp: "0 < length (players lobby_room)" and ds: "deck_size lobby_room = 36"
    by (simp_all add: lobby_room_def ex_defs)
  from start_game_applied [OF sh sz n, of example_uuid4 0 "''hearts''"] obtain r evs
    where st: "start_game_room example_uuid4 (\<lambda>xs. xs) 0 ''hearts'' lobby_room = Applied r evs" by blast
  have re: "reachable r" by (rule reachable.started [OF sz sh dp st])
  from start_game_total [OF sh sz st] ds have "deck_size r = 36" by simp
  with re st sh
    card_conservation [of r "\<lambda>xs. xs" room_after_draw True "''a''" play_six]
  show ?thesis by simp
qed

subsection \<open>The draw that resolves an 8-chain\<close>

lemma hand_of_draw_to:
  assumes "pid \<in> set (player_ids r)"
  shows "hand_of (draw_to pid r) pid = hand_of r pid @ [last (deck r)]"
proof -
  from key_present [OF assms] obtain p where "map_of (players r) pid = Some p" by blast
  then show ?thesis by (simp add: hand_of_def draw_to_def map_of_update_entry)
qed

lemma replenish_table:
  assumes sh: "is_shuffle sh" and rp: "replenish_deck sh r = (s, r0)" and dp: "discard_pile r \<noteq> []"
  shows "discard_pile r0 \<noteq> []" "last (discard_pile r0) = last (discard_pile r)"
        "length (deck r0) + length (discard_pile r0) = length (deck r) + length (discard_pile r)"
        "deck r0 = [] \<Longrightarrow> deck r = [] \<and> length (discard_pile r0) \<le> 1"
        "hand_of r0 pid = hand_of r pid"
proof -
  show "discard_pile r0 \<noteq> []" "last (discard_pile r0) = last (discard_pile r)"
    "hand_of r0 pid = hand_of r pid"
    using rp dp by (auto simp: replenish_deck_def Let_def hand_of_def split: if_splits)
  show "length (deck r0) + length (discard_pile r0) = length (deck r) + length (discard_pile r)"
    using rp dp by (auto simp: replenish_deck_def Let_def is_shuffle_length [OF sh] split: if_splits)
  show "deck r0 = [] \<Longrightarrow> deck r = [] \<and> length (discard_pile r0) \<le> 1"
    using rp dp
    by (cases "length (discard_pile r) > 1")
       (auto simp: replenish_deck_def Let_def is_shuffle_length [OF sh] split: if_splits)
qed

lemma eight_draw_loop_spec:
  assumes sh: "is_shuffle sh" and pin: "pid \<in> set (player_ids r)" and dp: "discard_pile r \<noteq> []"
      and res: "eight_draw_loop sh pid k (r, drawn0, b0) = (r1, drawn1, b1)"
  shows "\<exists>new. drawn1 = drawn0 @ new
       \<and> hand_of r1 pid = hand_of r pid @ new
       \<and> discard_pile r1 \<noteq> [] \<and> last (discard_pile r1) = last (discard_pile r)
       \<and> length (deck r1) + length (discard_pile r1) + length new
           = length (deck r) + length (discard_pile r)
       \<and> list_all (\<lambda>c. \<not> qualifies c (last (discard_pile r))) (butlast new)
       \<and> ((new \<noteq> [] \<and> qualifies (last new) (last (discard_pile r)))
           \<or> (deck r1 = [] \<and> length (discard_pile r1) \<le> 1
               \<and> list_all (\<lambda>c. \<not> qualifies c (last (discard_pile r))) new)
           \<or> (length new = k \<and> list_all (\<lambda>c. \<not> qualifies c (last (discard_pile r))) new))
       \<and> loop_flags r1 = loop_flags r"
  using pin dp res
proof (induction k arbitrary: r drawn0 b0)
  case 0
  then show ?case by simp
next
  case (Suc k)
  obtain s r0 where rp: "replenish_deck sh r = (s, r0)" by (cases "replenish_deck sh r") auto
  note fr = replenish_frame [OF rp] and tb = replenish_table [OF sh rp Suc.prems(2)]
  have fl0: "loop_flags r0 = loop_flags r" using fr by (simp add: loop_flags_def)
  show ?case
  proof (cases "deck r0 = []")
    case True
    with Suc.prems(3) rp have "r1 = r0" "drawn1 = drawn0" by auto
    with tb True fl0 show ?thesis by (intro exI [of _ "[]"]) (simp add: tb(5) [of pid])
  next
    case False
    let ?c = "last (deck r0)"
    let ?r2 = "draw_to pid r0"
    from Suc.prems(1) fr have pin0: "pid \<in> set (player_ids r0)" by simp
    have h2: "hand_of ?r2 pid = hand_of r pid @ [?c]"
      using hand_of_draw_to [OF pin0] tb(5) [of pid] by simp
    have d2: "discard_pile ?r2 = discard_pile r0" "deck ?r2 = butlast (deck r0)"
      by (simp_all add: draw_to_frame)
    have fl2: "loop_flags ?r2 = loop_flags r" using fl0 by (simp add: loop_flags_def draw_to_frame)
    have cnt: "length (deck ?r2) + length (discard_pile ?r2) + 1 = length (deck r) + length (discard_pile r)"
      using False tb(3) d2 by (cases "deck r0" rule: rev_cases) auto
    show ?thesis
    proof (cases "qualifies ?c (last (discard_pile r))")
      case True
      with Suc.prems(3) rp False tb have "r1 = ?r2" "drawn1 = drawn0 @ [?c]"
        by (auto simp: Let_def d2)
      with h2 d2 tb cnt fl2 True show ?thesis
        by (intro exI [of _ "[?c]"]) simp
    next
      case q: False
      with Suc.prems(3) rp False tb
      have rec: "eight_draw_loop sh pid k (?r2, drawn0 @ [?c], b0 \<or> s) = (r1, drawn1, b1)"
        by (auto simp: Let_def d2)
      have pin2: "pid \<in> set (player_ids ?r2)" using pin0 by (simp add: draw_to_frame)
      have dp2: "discard_pile ?r2 \<noteq> []" using tb(1) d2 by simp
      from Suc.IH [OF pin2 dp2 rec] obtain new where n:
        "drawn1 = (drawn0 @ [?c]) @ new"
        "hand_of r1 pid = hand_of ?r2 pid @ new"
        "discard_pile r1 \<noteq> []" "last (discard_pile r1) = last (discard_pile ?r2)"
        "length (deck r1) + length (discard_pile r1) + length new
           = length (deck ?r2) + length (discard_pile ?r2)"
        "list_all (\<lambda>c. \<not> qualifies c (last (discard_pile ?r2))) (butlast new)"
        "(new \<noteq> [] \<and> qualifies (last new) (last (discard_pile ?r2)))
           \<or> (deck r1 = [] \<and> length (discard_pile r1) \<le> 1
               \<and> list_all (\<lambda>c. \<not> qualifies c (last (discard_pile ?r2))) new)
           \<or> (length new = k \<and> list_all (\<lambda>c. \<not> qualifies c (last (discard_pile ?r2))) new)"
        "loop_flags r1 = loop_flags ?r2"
        by blast
      have top: "last (discard_pile ?r2) = last (discard_pile r)" using d2 tb(2) by simp
      have bl: "list_all (\<lambda>c. \<not> qualifies c (last (discard_pile r))) (butlast (?c # new))"
        using n(6) q top by (cases new) auto
      show ?thesis
        using n q top h2 cnt fl2 bl
        by (intro exI [of _ "?c # new"]) auto
    qed
  qed
qed


text \<open>
  C4. In a started room (a card on the table, and no more cards in deck and discard
  pile than the deck size of 36 or 52) whose current seat faces an open 8-chain, the
  draw resolution returns: the seat has drawn a list of cards, at most deck-size many;
  none but the last matches rank 2, Q, 8 or the suit of the top card; if the last one
  matches, the chain stays open for that seat with the drawn ids recorded; if not (or
  nothing was drawn) the deck is empty with at most one card on the table, the chain
  is cleared, the drawn ids are emptied and the turn passes to the next seat. The
  source's cap of 1000 iterations is the fuel of the loop and is never reached here.
\<close>

theorem eight_chain_draw:
  assumes sh: "is_shuffle sh"
      and turn: "current_player_index r < length (player_ids r)"
                "player_ids r ! current_player_index r = pid"
      and chain: "waiting_for_eight r" "\<not> eight_draw_used r"
      and table: "discard_pile r \<noteq> []"
      and cards: "int (length (deck r) + length (discard_pile r)) \<le> deck_size r"
                 "deck_size r = 36 \<or> deck_size r = 52"
  shows "\<exists>r1 evs drawn.
           draw_card sh w pid r = Applied r1 evs
         \<and> hand_of r1 pid = hand_of r pid @ drawn
         \<and> int (length drawn) \<le> deck_size r
         \<and> list_all (\<lambda>c. \<not> qualifies c (last (discard_pile r))) (butlast drawn)
         \<and> (if drawn \<noteq> [] \<and> qualifies (last drawn) (last (discard_pile r)) then
               waiting_for_eight r1 \<and> eight_draw_used r1
               \<and> current_player_index r1 = current_player_index r
               \<and> eight_drawn_cards r1
                    = Some ((case eight_drawn_cards r of None \<Rightarrow> {} | Some S \<Rightarrow> S)
                            \<union> set (map card_id drawn))
             else
               deck r1 = [] \<and> length (discard_pile r1) \<le> 1
               \<and> \<not> waiting_for_eight r1 \<and> \<not> eight_draw_used r1
               \<and> eight_drawn_cards r1 = Some {}
               \<and> current_player_index r1
                    = (current_player_index r + 1) mod length (player_ids r))"
proof -
  let ?r0 = "r\<lparr>eight_draw_used := True\<rparr>"
  let ?top = "last (discard_pile r)"
  obtain r2 drawn b where l: "eight_draw_loop sh pid max_iterations (?r0, [], False) = (r2, drawn, b)"
    by (cases "eight_draw_loop sh pid max_iterations (?r0, [], False)") auto
  have pin: "pid \<in> set (player_ids ?r0)" using turn by auto
  have dp: "discard_pile ?r0 \<noteq> []" using table by simp
  from eight_draw_loop_spec [OF sh pin dp l] obtain new where n:
    "drawn = [] @ new" "hand_of r2 pid = hand_of ?r0 pid @ new"
    "discard_pile r2 \<noteq> []" "last (discard_pile r2) = last (discard_pile ?r0)"
    "length (deck r2) + length (discard_pile r2) + length new
       = length (deck ?r0) + length (discard_pile ?r0)"
    "list_all (\<lambda>c. \<not> qualifies c (last (discard_pile ?r0))) (butlast new)"
    "(new \<noteq> [] \<and> qualifies (last new) (last (discard_pile ?r0)))
       \<or> (deck r2 = [] \<and> length (discard_pile r2) \<le> 1
           \<and> list_all (\<lambda>c. \<not> qualifies c (last (discard_pile ?r0))) new)
       \<or> (length new = max_iterations
           \<and> list_all (\<lambda>c. \<not> qualifies c (last (discard_pile ?r0))) new)"
    "loop_flags r2 = loop_flags ?r0"
    by blast
  from n(1) have dn: "drawn = new" by simp
  have len: "length drawn < length (deck r) + length (discard_pile r)"
    using n(5) n(3) dn by (cases "discard_pile r2") auto
  with cards have bound: "int (length drawn) \<le> deck_size r" "length drawn < max_iterations"
    by (auto simp: max_iterations_def)
  have stop: "(drawn \<noteq> [] \<and> qualifies (last drawn) ?top)
       \<or> (deck r2 = [] \<and> length (discard_pile r2) \<le> 1
           \<and> list_all (\<lambda>c. \<not> qualifies c ?top) drawn)"
    using n(7) bound(2) dn by auto
  have fl: "waiting_for_eight r2" "eight_draw_used r2" "eight_drawn_cards r2 = eight_drawn_cards r"
    "current_player_index r2 = current_player_index r" "player_ids r2 = player_ids r"
    using n(8) chain by (simp_all add: loop_flags_def)
  have hand: "hand_of r2 pid = hand_of r pid @ drawn"
    using n(2) dn by (simp add: hand_of_def)
  have top2: "last (discard_pile r2) = ?top" using n(4) by simp
  let ?r3 = "r2\<lparr>eight_drawn_cards :=
                 Some ((case eight_drawn_cards r2 of None \<Rightarrow> {} | Some S \<Rightarrow> S)
                       \<union> set (map card_id drawn))\<rparr>"
  show ?thesis
  proof (cases "drawn \<noteq> [] \<and> qualifies (last drawn) ?top")
    case True
    with turn chain l n(3) top2
    have "draw_card sh w pid r = Applied ?r3
            ((if b then deck_shuffled_events ?r3 else []) @ card_drawn_events pid (length drawn) ?r3)"
      by (simp add: draw_card_def Let_def)
    moreover have "hand_of ?r3 pid = hand_of r pid @ drawn" using hand by (simp add: hand_of_def)
    ultimately show ?thesis
      using True bound(1) n(6) dn fl by (intro exI [of _ ?r3] exI [of _ drawn] exI) auto
  next
    case False
    with stop have ex: "deck r2 = []" "length (discard_pile r2) \<le> 1" by auto
    from False turn chain l n(3) top2
    have "draw_card sh w pid r = Applied (clear_chain ?r3)
            ((if b then deck_shuffled_events (clear_chain ?r3) else [])
             @ card_drawn_events pid (length drawn) (clear_chain ?r3))"
      by (auto simp: draw_card_def Let_def)
    moreover have "hand_of (clear_chain ?r3) pid = hand_of r pid @ drawn"
      using hand by (simp add: hand_of_def clear_chain_def)
    ultimately show ?thesis
      using False bound(1) n(6) dn fl ex
      by (intro exI [of _ "clear_chain ?r3"] exI [of _ drawn] exI) (auto simp: clear_chain_def)
  qed
qed


lemma eight_draw_loop_numeral:
  "eight_draw_loop sh pid (numeral n) (r, drawn, b) =
     (case replenish_deck sh r of (shuffled, r1) \<Rightarrow>
        if deck r1 = [] then (r1, drawn, b \<or> shuffled)
        else if discard_pile r1 = [] then (r1, drawn, b \<or> shuffled)
        else
          (let c = last (deck r1);
               r2 = draw_to pid r1;
               top_card = last (discard_pile r2)
           in if qualifies c top_card then (r2, drawn @ [c], b \<or> shuffled)
              else eight_draw_loop sh pid (pred_numeral n) (r2, drawn @ [c], b \<or> shuffled)))"
  by (simp add: numeral_eq_Suc)

theorem eight_chain_draw_witness:
  "is_shuffle (\<lambda>xs. xs)
   \<and> current_player_index room_chain_open < length (player_ids room_chain_open)
   \<and> player_ids room_chain_open ! current_player_index room_chain_open = ''a''
   \<and> waiting_for_eight room_chain_open \<and> \<not> eight_draw_used room_chain_open
   \<and> discard_pile room_chain_open \<noteq> []
   \<and> int (length (deck room_chain_open) + length (discard_pile room_chain_open))
        \<le> deck_size room_chain_open
   \<and> (\<exists>r1 evs drawn.
         draw_card (\<lambda>xs. xs) True ''a'' room_chain_open = Applied r1 evs
         \<and> hand_of r1 ''a'' = hand_of room_chain_open ''a'' @ drawn
         \<and> int (length drawn) \<le> 52)
   \<and> hand_of (room_of (draw_card (\<lambda>xs. xs) True ''a'' room_chain_open)) ''a''
        = [mk_card ''9'' ''hearts'', mk_card ''3'' ''hearts'', mk_card ''K'' ''diamonds'',
           mk_card ''2'' ''hearts'']
   \<and> waiting_for_eight (room_of (draw_card (\<lambda>xs. xs) True ''a'' room_chain_open))"
proof -
  have hyps: "is_shuffle (\<lambda>xs. xs)"
    "current_player_index room_chain_open < length (player_ids room_chain_open)"
    "player_ids room_chain_open ! current_player_index room_chain_open = ''a''"
    "waiting_for_eight room_chain_open" "\<not> eight_draw_used room_chain_open"
    "discard_pile room_chain_open \<noteq> []"
    "int (length (deck room_chain_open) + length (discard_pile room_chain_open))
        \<le> deck_size room_chain_open"
    "deck_size room_chain_open = 36 \<or> deck_size room_chain_open = 52"
    "deck_size room_chain_open = 52"
    by (simp_all add: is_shuffle_def room_chain_open_def ex_defs player_ids_def)
  have run: "hand_of (room_of (draw_card (\<lambda>xs. xs) True ''a'' room_chain_open)) ''a''
        = [mk_card ''9'' ''hearts'', mk_card ''3'' ''hearts'', mk_card ''K'' ''diamonds'',
           mk_card ''2'' ''hearts'']
      \<and> waiting_for_eight (room_of (draw_card (\<lambda>xs. xs) True ''a'' room_chain_open))"
    by (simp add: room_chain_open_def ex_defs player_ids_def draw_card_def max_iterations_def
          eight_draw_loop_numeral replenish_deck_def draw_to_def qualifies_def hand_of_def Let_def)
  from eight_chain_draw [OF hyps(1-8), of True] hyps(9)
  have "\<exists>r1 evs drawn.
         draw_card (\<lambda>xs. xs) True ''a'' room_chain_open = Applied r1 evs
         \<and> hand_of r1 ''a'' = hand_of room_chain_open ''a'' @ drawn
         \<and> int (length drawn) \<le> 52"
    by auto
  with hyps run show ?thesis by blast
qed

subsection \<open>What the events show\<close>

lemma hand_of_entry:
  "distinct (player_ids r) \<Longrightarrow> (k, p) \<in> set (players r) \<Longrightarrow> hand_of r k = hand p"
  by (simp add: hand_of_def player_ids_def)

lemma entry_key: "(k, p) \<in> set (players r) \<Longrightarrow> k \<in> set (player_ids r)"
  by (force simp: player_ids_def)

lemma card_played_own:
  assumes "distinct (player_ids r)" and "(dst, e) \<in> set (card_played_events pid c fid fc r)"
  shows "\<exists>k. dst = To_player k \<and> k \<in> set (player_ids r) \<and> own_view r k e"
  using assms
  by (auto simp: card_played_events_def own_view_def hand_of_entry entry_key)



lemma card_drawn_own:
  assumes "distinct (player_ids r)" and "(dst, e) \<in> set (card_drawn_events pid n r)"
  shows "\<exists>k. dst = To_player k \<and> k \<in> set (player_ids r) \<and> own_view r k e"
  using assms
  by (auto simp: card_drawn_events_def own_view_def hand_of_entry entry_key)

lemma turn_skipped_own:
  assumes "distinct (player_ids r)" and "(dst, e) \<in> set (turn_skipped_events pid r)"
  shows "\<exists>k. dst = To_player k \<and> k \<in> set (player_ids r) \<and> own_view r k e"
  using assms
  by (auto simp: turn_skipped_events_def own_view_def hand_of_entry entry_key)

lemma game_started_own:
  assumes "distinct (player_ids r)" and "(dst, e) \<in> set (game_started_events c fid fc r)"
  shows "\<exists>k. dst = To_player k \<and> k \<in> set (player_ids r) \<and> own_view r k e"
  using assms
  by (auto simp: game_started_events_def own_view_def hand_of_entry entry_key)

lemma deck_shuffled_own:
  assumes "(dst, e) \<in> set (deck_shuffled_events r)"
  shows "\<exists>k. dst = To_player k \<and> k \<in> set (player_ids r) \<and> own_view r k e"
  using assms by (auto simp: deck_shuffled_events_def own_view_def)

lemma play_effects_shape: "played_shape pid (play_effects sh pid data c r)"
  unfolding played_shape_def play_effects_def Let_def
  by (simp split: prod.splits) blast


lemma refuse_shape [simp]:
  "played_shape pid (refuse w r m)" "played_shape pid (refuse_unguarded w r m)"
  "played_shape pid (Crashed r e)"
  by (simp_all add: played_shape_def refuse_def refuse_unguarded_def)

lemma play_card_shape: "played_shape pid (play_card sh w pid data r)"
  unfolding play_card_def Let_def
  by (simp add: play_effects_shape split: option.splits)

lemma play_card_events:
  assumes "play_card sh w pid data r = Applied r1 evs"
  shows "\<exists>c fid fc b. evs = card_played_events pid c fid fc r1 @ (if b then deck_shuffled_events r1 else [])"
  using play_card_shape [of pid sh w data r] assms by (simp add: played_shape_def)

lemma draw_card_events:
  assumes "draw_card sh w pid r = Applied r1 evs"
  shows "\<exists>n b. evs = (if b then deck_shuffled_events r1 else []) @ card_drawn_events pid n r1"
proof -
  have "case draw_card sh w pid r of
          Applied r1 evs \<Rightarrow> (\<exists>n b. evs = (if b then deck_shuffled_events r1 else [])
                                       @ card_drawn_events pid n r1)
        | _ \<Rightarrow> True"
    unfolding draw_card_def Let_def refuse_def refuse_unguarded_def
    by (simp split: prod.splits) blast
  with assms show ?thesis by simp
qed

lemma skip_turn_events:
  assumes "skip_turn w pid r = Applied r1 evs"
  shows "evs = turn_skipped_events pid r1"
  using assms by (auto simp: skip_turn_def refuse_def Let_def split: if_splits)

lemma start_game_events:
  assumes "start_game_room u sh dp sp r = Applied r1 evs"
  shows "\<exists>c fid fc b. evs = game_started_events c fid fc r1 @ (if b then deck_shuffled_events r1 else [])"
proof -
  have "case start_game_room u sh dp sp r of
          Applied r1 evs \<Rightarrow> (\<exists>c fid fc b. evs = game_started_events c fid fc r1
                                       @ (if b then deck_shuffled_events r1 else []))
        | _ \<Rightarrow> True"
    unfolding start_game_room_def Let_def
    by (simp split: prod.splits) blast
  with assms show ?thesis by simp
qed


lemma deal_keys: "deal ps d = (ps1, d1, ok) \<Longrightarrow> map fst ps1 = map fst ps"
proof (induction ps arbitrary: d ps1 d1 ok)
  case Nil
  then show ?case by simp
next
  case (Cons a ps)
  obtain k p where a: "a = (k, p)" by (cases a) auto
  show ?case
  proof (cases "length d < 5")
    case True
    with Cons.prems a show ?thesis by auto
  next
    case False
    obtain ps2 d2 ok2 where rec: "deal ps (take (length d - 5) d) = (ps2, d2, ok2)"
      by (cases "deal ps (take (length d - 5) d)") auto
    from Cons.IH [OF rec] Cons.prems a False rec show ?thesis by auto
  qed
qed

lemma forced_draw_one_ids:
  "forced_draw_one sh t (r, n, b) = (r1, n1, b1) \<Longrightarrow> player_ids r1 = player_ids r"
  by (auto simp: forced_draw_one_def replenish_deck_def draw_to_def Let_def player_ids_def
           split: if_splits)

lemma first_card_effect_ids:
  assumes "first_card_effect sh sp c r = (r5, fid, fc, b)"
  shows "player_ids r5 = player_ids r"
proof -
  let ?t = "player_ids r ! current_player_index r"
  obtain x n1 b1 where f1: "forced_draw_one sh ?t (r, 0, False) = (x, n1, b1)"
    by (cases "forced_draw_one sh ?t (r, 0, False)") auto
  obtain y n2 b2 where f2: "forced_draw_one sh ?t (x, n1, b1) = (y, n2, b2)"
    by (cases "forced_draw_one sh ?t (x, n1, b1)") auto
  from assms f1 f2 forced_draw_one_ids [OF f1] forced_draw_one_ids [OF f2] show ?thesis
    by (auto simp: first_card_effect_def Let_def split: if_splits)
qed

lemma start_game_ids:
  assumes "start_game_room u sh dp sp r0 = Applied r evs"
  shows "player_ids r = player_ids r0"
proof -
  obtain ps d ok where dl: "deal (players r0) (create_deck u sh (deck_size r0)) = (ps, d, ok)"
    by (cases "deal (players r0) (create_deck u sh (deck_size r0))") auto
  let ?r2 = "r0\<lparr>game_started := True, players := ps, deck := d\<rparr>"
  have i2: "player_ids (seat_dealer dp (lay_first_card ?r2)) = player_ids r0"
    using deal_keys [OF dl] by (simp add: lay_first_card_total) (simp add: player_ids_def)
  obtain r5 fid fc b
    where e: "first_card_effect sh sp (last d) (seat_dealer dp (lay_first_card ?r2)) = (r5, fid, fc, b)"
    by (cases "first_card_effect sh sp (last d) (seat_dealer dp (lay_first_card ?r2))") auto
  from assms dl e have "r = r5"
    by (auto simp: start_game_room_def deal_round_def Let_def split: if_splits)
  with first_card_effect_ids [OF e] i2 show ?thesis by simp
qed

lemma results_hands:
  "map res_hand (round_results r w) = map (\<lambda>(i, p). if i \<noteq> w then hand p else []) (players r)"
  by (auto simp: round_results_def tally_def tally_player_def Let_def)

text \<open>
  C7, as the code has it. Every event an accepted play, draw or skip, or the start of a
  game, sends is addressed to one seat of the room and shows that seat its own hand and
  every seat's public view with the hand count (a \<open>deck_shuffled\<close> notice shows no cards).
  The \<open>game_ended\<close> event is different by construction: each seat is sent the whole
  results list, in which every seat that did not win appears with its remaining hand.
\<close>

theorem seat_events_show_own_hand:
  assumes d: "distinct (player_ids r)" and sh: "is_shuffle sh"
      and out: "play_card sh w pid data r = Applied r1 evs
              \<or> draw_card sh w pid r = Applied r1 evs
              \<or> skip_turn w pid r = Applied r1 evs
              \<or> start_game_room u sh dp sp r = Applied r1 evs"
      and ev: "(dst, e) \<in> set evs"
  shows "(\<exists>k. dst = To_player k \<and> k \<in> set (player_ids r1) \<and> own_view r1 k e)
       \<and> (map_of (rooms s) rid = Some g \<and> seat \<in> set (player_ids g) \<longrightarrow>
            (To_player seat, Game_ended
               \<lparr>ge_winner_id = winner, ge_winning_card = top_card_opt g,
                ge_results = round_results g winner\<rparr>) \<in> set (sent (handle_game_end rid winner s))
            \<and> map res_hand (round_results g winner)
                = map (\<lambda>(i, p). if i \<noteq> winner then hand p else []) (players g))"
proof -
  have ids: "player_ids r1 = player_ids r"
    using out play_card_total [OF sh, of w pid data r] draw_card_total [OF sh, of w pid r]
          skip_turn_total [of w pid r] start_game_ids [of u sh dp sp r r1 evs]
    by auto
  with d have d1: "distinct (player_ids r1)" by simp
  have own: "\<exists>k. dst = To_player k \<and> k \<in> set (player_ids r1) \<and> own_view r1 k e"
    if "(dst, e) \<in> set (main @ (if b then deck_shuffled_events r1 else []))
        \<or> (dst, e) \<in> set ((if b then deck_shuffled_events r1 else []) @ main)"
      and "\<And>x y. (x, y) \<in> set main \<Longrightarrow> \<exists>k. x = To_player k \<and> k \<in> set (player_ids r1) \<and> own_view r1 k y"
    for main b
    using that deck_shuffled_own [of dst e r1] by (auto split: if_splits)
  from out have first: "\<exists>k. dst = To_player k \<and> k \<in> set (player_ids r1) \<and> own_view r1 k e"
  proof (elim disjE)
    assume "play_card sh w pid data r = Applied r1 evs"
    from play_card_events [OF this] obtain c fid fc b
      where "evs = card_played_events pid c fid fc r1 @ (if b then deck_shuffled_events r1 else [])"
      by blast
    with ev own [of "card_played_events pid c fid fc r1" b] card_played_own [OF d1]
    show ?thesis by blast
  next
    assume "draw_card sh w pid r = Applied r1 evs"
    from draw_card_events [OF this] obtain n b
      where "evs = (if b then deck_shuffled_events r1 else []) @ card_drawn_events pid n r1"
      by blast
    with ev own [of "card_drawn_events pid n r1" b] card_drawn_own [OF d1]
    show ?thesis by blast
  next
    assume "skip_turn w pid r = Applied r1 evs"
    from skip_turn_events [OF this] ev turn_skipped_own [OF d1] show ?thesis by blast
  next
    assume "start_game_room u sh dp sp r = Applied r1 evs"
    from start_game_events [OF this] obtain c fid fc b
      where "evs = game_started_events c fid fc r1 @ (if b then deck_shuffled_events r1 else [])"
      by blast
    with ev own [of "game_started_events c fid fc r1" b] game_started_own [OF d1]
    show ?thesis by blast
  qed
  have second: "map_of (rooms s) rid = Some g \<and> seat \<in> set (player_ids g) \<longrightarrow>
            (To_player seat, Game_ended
               \<lparr>ge_winner_id = winner, ge_winning_card = top_card_opt g,
                ge_results = round_results g winner\<rparr>) \<in> set (sent (handle_game_end rid winner s))
            \<and> map res_hand (round_results g winner)
                = map (\<lambda>(i, p). if i \<noteq> winner then hand p else []) (players g)"
  proof
    assume a: "map_of (rooms s) rid = Some g \<and> seat \<in> set (player_ids g)"
    with game_end_sent [of s rid g winner] obtain rest
      where "sent (handle_game_end rid winner s) =
           map (\<lambda>k. (To_player k, Game_ended
                  \<lparr>ge_winner_id = winner, ge_winning_card = top_card_opt g,
                   ge_results = round_results g winner\<rparr>))
               (player_ids g) @ rest"
      by blast
    with a results_hands [of g winner]
    show "(To_player seat, Game_ended
               \<lparr>ge_winner_id = winner, ge_winning_card = top_card_opt g,
                ge_results = round_results g winner\<rparr>) \<in> set (sent (handle_game_end rid winner s))
            \<and> map res_hand (round_results g winner)
                = map (\<lambda>(i, p). if i \<noteq> winner then hand p else []) (players g)"
      by auto
  qed
  from first second show ?thesis by (rule conjI)
qed


text \<open>
  The sentence of the specification fails at \<open>game_ended\<close>: the message sent to
  the winner a lists the two cards seat b still holds.
\<close>

theorem game_ended_shows_hands_counterexample:
  "(To_player ''a'', Game_ended
      \<lparr>ge_winner_id = ''a'', ge_winning_card = Some (mk_card ''Q'' ''spades''),
       ge_results =
         [\<lparr>res_player_id = ''a'', res_nickname = ''a'', res_points = - 40, res_total_score = - 40,
           res_hand = [], res_queen_bonus = Some (- 40)\<rparr>,
          \<lparr>res_player_id = ''b'', res_nickname = ''b'', res_points = 11, res_total_score = 21,
           res_hand = [mk_card ''K'' ''hearts'', mk_card ''7'' ''clubs''],
           res_queen_bonus = None\<rparr>]\<rparr>)
     \<in> set (sent (handle_game_end ''r'' ''a'' (mk_server room_won_with_queen)))
   \<and> hand_of room_won_with_queen ''b'' = [mk_card ''K'' ''hearts'', mk_card ''7'' ''clubs'']
   \<and> \<not> own_view room_won_with_queen ''a'' (Game_ended
      \<lparr>ge_winner_id = ''a'', ge_winning_card = Some (mk_card ''Q'' ''spades''),
       ge_results =
         [\<lparr>res_player_id = ''a'', res_nickname = ''a'', res_points = - 40, res_total_score = - 40,
           res_hand = [], res_queen_bonus = Some (- 40)\<rparr>,
          \<lparr>res_player_id = ''b'', res_nickname = ''b'', res_points = 11, res_total_score = 21,
           res_hand = [mk_card ''K'' ''hearts'', mk_card ''7'' ''clubs''],
           res_queen_bonus = None\<rparr>]\<rparr>)"
proof -
  have r: "map_of (rooms (mk_server room_won_with_queen)) ''r'' = Some room_won_with_queen"
    by (simp add: mk_server_def)
  have res: "round_results room_won_with_queen ''a'' =
         [\<lparr>res_player_id = ''a'', res_nickname = ''a'', res_points = - 40, res_total_score = - 40,
           res_hand = [], res_queen_bonus = Some (- 40)\<rparr>,
          \<lparr>res_player_id = ''b'', res_nickname = ''b'', res_points = 11, res_total_score = 21,
           res_hand = [mk_card ''K'' ''hearts'', mk_card ''7'' ''clubs''],
           res_queen_bonus = None\<rparr>]"
    by (simp add: room_won_with_queen_def ex_defs round_results_def tally_defs Let_def)
  have top: "top_card_opt room_won_with_queen = Some (mk_card ''Q'' ''spades'')"
    and ids: "player_ids room_won_with_queen = [''a'', ''b'']"
    and hb: "hand_of room_won_with_queen ''b'' = [mk_card ''K'' ''hearts'', mk_card ''7'' ''clubs'']"
    by (simp_all add: room_won_with_queen_def ex_defs top_card_opt_def player_ids_def hand_of_def)
  from game_end_sent [OF r, of "''a''"] res top ids hb show ?thesis
    by (auto simp: own_view_def)
qed

theorem seat_events_show_own_hand_witness:
  "distinct (player_ids room_after_draw) \<and> is_shuffle (\<lambda>xs. xs)
   \<and> skip_turn True ''a'' room_after_draw
       = Applied (room_after_draw\<lparr>current_player_index := 1, card_drawn_this_turn := False\<rparr>)
           (turn_skipped_events ''a''
              (room_after_draw\<lparr>current_player_index := 1, card_drawn_this_turn := False\<rparr>))
   \<and> fst (turn_skipped_events ''a''
             (room_after_draw\<lparr>current_player_index := 1, card_drawn_this_turn := False\<rparr>) ! 1)
       = To_player ''b''
   \<and> own_view (room_after_draw\<lparr>current_player_index := 1, card_drawn_this_turn := False\<rparr>) ''b''
        (snd (turn_skipped_events ''a''
                (room_after_draw\<lparr>current_player_index := 1, card_drawn_this_turn := False\<rparr>) ! 1))
   \<and> map_of (rooms (mk_server room_won_with_queen)) ''r'' = Some room_won_with_queen
   \<and> ''b'' \<in> set (player_ids room_won_with_queen)
   \<and> map res_hand (round_results room_won_with_queen ''a'')
        = [[], [mk_card ''K'' ''hearts'', mk_card ''7'' ''clubs'']]"
proof -
  let ?r1 = "room_after_draw\<lparr>current_player_index := 1, card_drawn_this_turn := False\<rparr>"
  let ?evs = "turn_skipped_events ''a'' ?r1"
  have d: "distinct (player_ids room_after_draw)" and sh: "is_shuffle (\<lambda>xs. xs)"
    and sk: "skip_turn True ''a'' room_after_draw = Applied ?r1 ?evs"
    and len: "length ?evs = 2" and f: "fst (?evs ! 1) = To_player ''b''"
    by (simp_all add: room_after_draw_def ex_defs player_ids_def is_shuffle_def skip_turn_def
                      turn_skipped_events_def Let_def)
  from len have mem: "(fst (?evs ! 1), snd (?evs ! 1)) \<in> set ?evs" by simp
  have g: "map_of (rooms (mk_server room_won_with_queen)) ''r'' = Some room_won_with_queen"
    "''b'' \<in> set (player_ids room_won_with_queen)"
    "map (\<lambda>(i, p). if i \<noteq> ''a'' then hand p else []) (players room_won_with_queen)
       = [[], [mk_card ''K'' ''hearts'', mk_card ''7'' ''clubs'']]"
    by (simp_all add: room_won_with_queen_def ex_defs player_ids_def)
  from seat_events_show_own_hand
         [OF d sh _ mem, where w = True and pid = "''a''" and data = play_six
            and u = example_uuid4 and dp = 0 and sp = "''hearts''"
            and s = "mk_server room_won_with_queen" and rid = "''r''" and g = room_won_with_queen
            and seat = "''b''" and winner = "''a''"] sk f g
  have "own_view ?r1 ''b'' (snd (?evs ! 1))
        \<and> map res_hand (round_results room_won_with_queen ''a'')
            = [[], [mk_card ''K'' ''hearts'', mk_card ''7'' ''clubs'']]" by auto
  with d sh sk f g show ?thesis by blast
qed

subsection \<open>A started room has a card on the table and a seat to move\<close>

lemma seat_in_range: "i < n \<Longrightarrow> j mod n < (n::nat)"
  by (cases n) auto

lemma forced_draw_one_table:
  assumes "forced_draw_one sh t (r, n, b) = (r1, n1, b1)" and "discard_pile r \<noteq> []"
  shows "discard_pile r1 \<noteq> []"
  using assms
  by (auto simp: forced_draw_one_def replenish_deck_def draw_to_def Let_def split: if_splits)

lemma play_effects_table:
  assumes i: "current_player_index r < length (player_ids r)"
  shows "table_ok (room_of (play_effects sh pid data c r))"
proof -
  let ?b = "discarded pid c r"
  let ?t = "player_ids r ! ((current_player_index ?b + 1) mod length (player_ids r))"
  have n: "player_ids r \<noteq> []" using i by (cases "player_ids r") auto
  have b: "discard_pile ?b \<noteq> []" "current_player_index ?b = current_player_index r"
          "player_ids ?b = player_ids r"
    by (simp_all add: discarded_frame)
  obtain x n1 b1 where f1: "forced_draw_one sh ?t (?b, 0, False) = (x, n1, b1)"
    by (cases "forced_draw_one sh ?t (?b, 0, False)") auto
  obtain y n2 b2 where f2: "forced_draw_one sh ?t (x, n1, b1) = (y, n2, b2)"
    by (cases "forced_draw_one sh ?t (x, n1, b1)") auto
  note x = forced_draw_one_table [OF f1 b(1)] forced_draw_one_ids [OF f1] forced_draw_one_frame [OF f1]
  note y = forced_draw_one_table [OF f2 x(1)] forced_draw_one_ids [OF f2] forced_draw_one_frame [OF f2]
  show ?thesis
    using n i b f1 f2 x y
    by (simp add: play_effects_def Let_def table_ok_def)
qed

lemma play_card_table:
  assumes "play_card sh w pid data r = Applied r1 evs"
  shows "table_ok r1"
proof -
  have i: "current_player_index r < length (player_ids r)"
    using assms by (auto simp: play_card_def split: if_splits)
  have ic: "current_player_index (chain_resolved r) < length (player_ids (chain_resolved r))"
    using i by (simp add: chain_resolved_def player_ids_def)
  have "\<exists>c r'. (r' = r \<or> r' = chain_resolved r)
              \<and> play_card sh w pid data r = play_effects sh pid data c r'"
    using assms
    by (auto simp: play_card_def refuse_def refuse_unguarded_def Let_def
             split: option.splits if_splits) metis+
  then obtain c r' where c: "r' = r \<or> r' = chain_resolved r"
      "play_card sh w pid data r = play_effects sh pid data c r'" by blast
  from c(1) i ic have "table_ok (room_of (play_effects sh pid data c r'))"
    using play_effects_table by blast
  moreover from c(2) assms have "play_effects sh pid data c r' = Applied r1 evs" by simp
  ultimately show ?thesis by simp
qed

lemma draw_card_table:
  assumes sh: "is_shuffle sh" and t: "table_ok r" and d: "draw_card sh w pid r = Applied r1 evs"
  shows "table_ok r1"
proof (cases "waiting_for_eight r")
  case True
  let ?r0 = "r\<lparr>eight_draw_used := True\<rparr>"
  obtain r2 drawn b where l: "eight_draw_loop sh pid max_iterations (?r0, [], False) = (r2, drawn, b)"
    by (cases "eight_draw_loop sh pid max_iterations (?r0, [], False)") auto
  from d have turn: "current_player_index r < length (player_ids r)"
    "player_ids r ! current_player_index r = pid"
    by (auto simp: draw_card_def refuse_def split: if_splits)
  then have pin: "pid \<in> set (player_ids ?r0)" by auto
  have dp: "discard_pile ?r0 \<noteq> []" using t by (simp add: table_ok_def)
  from eight_draw_loop_spec [OF sh pin dp l]
  have k: "discard_pile r2 \<noteq> []" "loop_flags r2 = loop_flags ?r0" by blast+
  then have f: "current_player_index r2 = current_player_index r" "player_ids r2 = player_ids r"
    by (simp_all add: loop_flags_def)
  let ?r3 = "r2\<lparr>eight_drawn_cards :=
                   Some ((case eight_drawn_cards r2 of None \<Rightarrow> {} | Some S \<Rightarrow> S)
                         \<union> set (map card_id drawn))\<rparr>"
  from d True l turn have "r1 = ?r3 \<or> r1 = clear_chain ?r3"
    by (auto simp: draw_card_def refuse_def Let_def split: if_splits)
  then show ?thesis
    using k(1) f turn(1) seat_in_range [OF turn(1)]
    by (auto simp: table_ok_def clear_chain_def)
next
  case False
  obtain s r0 where rp: "replenish_deck sh r = (s, r0)" by (cases "replenish_deck sh r") auto
  from t have dp: "discard_pile r \<noteq> []" by (simp add: table_ok_def)
  note rt = replenish_table(1) [OF sh rp dp] and fr = replenish_frame [OF rp]
  from d False rp have "r1 = (draw_to pid r0)\<lparr>card_drawn_this_turn := True\<rparr>"
    by (auto simp: draw_card_def refuse_def refuse_unguarded_def Let_def split: if_splits)
  with rt fr t show ?thesis
    by (simp add: table_ok_def draw_to_frame)
qed

lemma skip_turn_table:
  assumes t: "table_ok r" and d: "skip_turn w pid r = Applied r1 evs"
  shows "table_ok r1"
proof -
  from d have i: "current_player_index r < length (player_ids r)"
    and r1: "r1 = r\<lparr>current_player_index := (current_player_index r + 1) mod length (player_ids r),
                       card_drawn_this_turn := False\<rparr>"
    by (auto simp: skip_turn_def refuse_def Let_def split: if_splits)
  from t seat_in_range [OF i] show ?thesis
    unfolding r1 by (simp add: table_ok_def)
qed

lemma first_card_effect_table:
  assumes t: "table_ok r" and e: "first_card_effect sh sp c r = (r5, fid, fc, b)"
  shows "table_ok r5"
proof -
  let ?t = "player_ids r ! current_player_index r"
  from t have dp: "discard_pile r \<noteq> []" and i: "current_player_index r < length (player_ids r)"
    by (simp_all add: table_ok_def)
  obtain x n1 b1 where f1: "forced_draw_one sh ?t (r, 0, False) = (x, n1, b1)"
    by (cases "forced_draw_one sh ?t (r, 0, False)") auto
  obtain y n2 b2 where f2: "forced_draw_one sh ?t (x, n1, b1) = (y, n2, b2)"
    by (cases "forced_draw_one sh ?t (x, n1, b1)") auto
  note x = forced_draw_one_table [OF f1 dp] forced_draw_one_ids [OF f1]
  note y = forced_draw_one_table [OF f2 x(1)] forced_draw_one_ids [OF f2]
  from e f1 f2 x y dp i seat_in_range [OF i] show ?thesis
    by (auto simp: first_card_effect_def Let_def table_ok_def split: if_splits)
qed

lemma start_game_table:
  assumes st: "start_game_room u sh dp sp r0 = Applied r evs"
  shows "table_ok r"
proof -
  obtain r2 ok where dr: "deal_round u sh r0 = (r2, ok)" by (cases "deal_round u sh r0") auto
  let ?r3 = "lay_first_card r2"
  from st dr have nz: "player_ids ?r3 \<noteq> []"
    by (auto simp: start_game_room_def Let_def loser_present_def split: if_splits option.splits)
  obtain r5 fid fc b where e: "first_card_effect sh sp (last (deck r2)) (seat_dealer dp ?r3) = (r5, fid, fc, b)"
    by (cases "first_card_effect sh sp (last (deck r2)) (seat_dealer dp ?r3)") auto
  have "discard_pile (seat_dealer dp ?r3) \<noteq> []"
    by (simp add: seat_dealer_def lay_first_card_def Let_def)
  with seat_dealer_index [OF nz, of dp] have "table_ok (seat_dealer dp ?r3)"
    by (simp add: table_ok_def)
  from first_card_effect_table [OF this e] st dr e show ?thesis
    by (auto simp: start_game_room_def Let_def split: if_splits)
qed

text \<open>
  The hypotheses under which the legality of a play and the 8-chain draw are stated
  hold in every state a started room reaches: a card lies on the table, the turn
  pointer names a seat, and deck and discard pile together hold no more cards than
  the deck size.
\<close>

lemma reachable_table: "reachable r \<Longrightarrow> table_ok r"
proof (induction rule: reachable.induct)
  case (started r0 sh dealer_pick uuid4 suit_pick r evs)
  then show ?case using start_game_table by blast
next
  case (played r sh has_ws pid data r1 evs)
  then show ?case using play_card_table by blast
next
  case (drew r sh has_ws pid r1 evs)
  then show ?case using draw_card_table by blast
next
  case (skipped r has_ws pid r1 evs)
  then show ?case using skip_turn_table by blast
qed

lemma reachable_piles:
  assumes "reachable r"
  shows "discard_pile r \<noteq> [] \<and> current_player_index r < length (player_ids r)
       \<and> int (length (deck r) + length (discard_pile r)) \<le> deck_size r
       \<and> (deck_size r = 36 \<or> deck_size r = 52)"
proof -
  from reachable_invariant [OF assms]
  have "int (card_total r) = deck_size r" "deck_size r = 36 \<or> deck_size r = 52" by simp_all
  moreover have "length (deck r) + length (discard_pile r) \<le> card_total r"
    by (simp add: card_total_def)
  ultimately show ?thesis
    using reachable_table [OF assms] by (auto simp: table_ok_def)
qed

end
